theory Spec2Isabelle
  imports Complex_Main
begin

section \<open>Data model\<close>

text \<open>
  Python objects are compared by identity in the rule checks (\<^verbatim>\<open>ball is self.eight_ball\<close>;
  \<^verbatim>\<open>in\<close> on a list of balls falls back to identity, the ball classes define no
  \<^verbatim>\<open>__eq__\<close>) and are mutated in place while several lists refer to them. A ball is
  therefore a reference into an explicit store, and the lists of the table and of the
  lobby hold references.

  Python floats are rendered as real numbers: the claims below concern which branch is
  taken and which list is changed, and the comparisons are read on the ideal values.
\<close>

type_synonym ref = nat

datatype py_error = AttributeError | TypeError | ValueError | ZeroDivisionError | IndexError

record vector2d =
  xcomp :: real
  ycomp :: real

record circle =
  centre :: vector2d
  radius :: real

text \<open>
  \<^verbatim>\<open>LineSegment\<close> stores its two end points and their difference \<^verbatim>\<open>vector\<close>, computed
  once by the constructor.
\<close>

record line_segment =
  coord1 :: vector2d
  coord2 :: vector2d
  seg_vector :: vector2d

text \<open>The entries of the settings dictionary that the simulation reads.\<close>

record settings =
  ball_radius :: real
  ball_mass :: real
  gravity :: real
  air_density :: real
  ball_coeff_of_drag :: real
  coeff_of_static_friction :: real
  coeff_of_rolling_friction :: real
  limiting_vel :: real
  table_coeff_of_rest :: real
  ball_coeff_of_rest :: real

text \<open>
  \<^verbatim>\<open>Ball.representation\<close> is a \<^verbatim>\<open>Circle\<close> built on the very vector object \<^verbatim>\<open>self.pos\<close>
  (the setter of \<^verbatim>\<open>Circle.centre\<close> keeps the object it is given), and \<^verbatim>\<open>update_position\<close>
  rebinds both to one fresh copy. Inside the simulation module the circle's centre and
  \<^verbatim>\<open>pos\<close> are therefore one object, and \<^verbatim>\<open>self.centre.set(self.new_pos)\<close> writes \<^verbatim>\<open>pos\<close>:
  the field \<open>pos\<close> stands for both. The other vectors of a ball (\<^verbatim>\<open>new_pos\<close>, \<^verbatim>\<open>old_pos\<close>,
  \<^verbatim>\<open>vel\<close>) are objects of their own, so they are plain values here.
\<close>

record ball =
  number :: "int option"
  striped :: bool
  pos :: vector2d
  new_pos :: vector2d
  old_pos :: vector2d
  ball_rad :: real
  mass :: real
  normal_contact :: real
  vel :: vector2d
  applied_force :: "(vector2d \<times> real) option"
  air_res_coeff :: real
  colliding :: bool
  hit_rail :: bool
  can_collide :: bool
  attempted_force_application :: bool
  ball_settings :: settings

text \<open>
  The table; \<open>heap\<close> is the store of the ball objects, \<open>table_pos\<close> is \<^verbatim>\<open>Table.pos\<close>.
\<close>

record table =
  heap :: "ref \<Rightarrow> ball"
  table_pos :: vector2d
  upper_pos :: vector2d
  balls :: "ref list"
  rails :: "line_segment list"
  pockets :: "circle list"
  in_motion :: bool
  previously_in_motion :: bool
  holding :: "ref option"
  eight_ball :: "ref option"
  cue_ball :: "ref option"
  hit :: "ref list"
  pocketed :: "ref list"
  rail_contacts :: "ref list"

text \<open>
  The rule state of \<^verbatim>\<open>server.Lobby\<close> (and, field for field, of \<^verbatim>\<open>client.OfflineGame\<close>:
  \<^verbatim>\<open>_break\<close>, \<^verbatim>\<open>_open\<close>, \<^verbatim>\<open>_player_turn\<close>, \<^verbatim>\<open>_p1_balls\<close>, ...).

  \<^verbatim>\<open>__close_table\<close> binds \<^verbatim>\<open>__p1_balls\<close> and \<^verbatim>\<open>__p2_balls\<close> to the very list objects
  \<^verbatim>\<open>__striped_balls\<close> and \<^verbatim>\<open>__spotted_balls\<close>, and balls are later removed through either
  name. The four lists are therefore kept in one place each, and a player's attribute
  says which of them it refers to: one of the two lists that \<^verbatim>\<open>__reset_state\<close> makes for
  the players, or one of the two groups.

  Of the commands sent to the players, \<open>outbox\<close> keeps which command went to whom, with
  the arguments that the rules decide. The statistics counters and the flags of the
  players' connections are left out; \<^verbatim>\<open>settings["starting_player"]\<close> is the field
  \<open>starting_player\<close>, and \<open>finished\<close> tells whether \<^verbatim>\<open>end_game\<close> has stamped its time.
\<close>

datatype ball_list = Own_p1 | Own_p2 | Striped_group | Spotted_group

datatype recipient = All_players | Player int

datatype lobby_command =
    Start_next_turn bool bool bool bool
  | Close_table_command "bool option"
  | Victory_command int
  | Foul_command "string list option"
  | Force_redo_message
  | Redo_choice
  | Load_settings
  | Create_game int

record lobby =
  lobby_table :: table
  is_break :: bool
  is_open :: bool
  player_turn :: int
  own_p1 :: "ref list"
  own_p2 :: "ref list"
  striped_balls :: "ref list"
  spotted_balls :: "ref list"
  p1_balls_at :: ball_list
  p2_balls_at :: ball_list
  p1_is_striped :: "bool option"
  starting_player :: int
  check_state :: bool
  can_shoot :: bool
  can_pass_turn :: bool
  checked :: bool
  finished :: bool
  victor :: "int option"
  outbox :: "(recipient \<times> lobby_command) list"

section \<open>Vector2D (vectors.py)\<close>

definition vector2d_add :: "vector2d \<Rightarrow> vector2d \<Rightarrow> vector2d" where
  "vector2d_add a b = \<lparr>xcomp = xcomp a + xcomp b, ycomp = ycomp a + ycomp b\<rparr>"

definition vector2d_sub :: "vector2d \<Rightarrow> vector2d \<Rightarrow> vector2d" where
  "vector2d_sub a b = \<lparr>xcomp = xcomp a - xcomp b, ycomp = ycomp a - ycomp b\<rparr>"

definition vector2d_mul :: "vector2d \<Rightarrow> real \<Rightarrow> vector2d" where
  "vector2d_mul a amount = \<lparr>xcomp = xcomp a * amount, ycomp = ycomp a * amount\<rparr>"

definition vector2d_truediv :: "vector2d \<Rightarrow> real \<Rightarrow> py_error + vector2d" where
  "vector2d_truediv a amount =
     (if amount = 0 then Inl ZeroDivisionError
      else Inr \<lparr>xcomp = xcomp a / amount, ycomp = ycomp a / amount\<rparr>)"

definition dot_product :: "vector2d \<Rightarrow> vector2d \<Rightarrow> real" where
  "dot_product a b = xcomp a * xcomp b + ycomp a * ycomp b"

definition perpendicular :: "vector2d \<Rightarrow> vector2d" where
  "perpendicular a = \<lparr>xcomp = - ycomp a, ycomp = xcomp a\<rparr>"

definition magnitude_squared :: "vector2d \<Rightarrow> real" where
  "magnitude_squared v = (xcomp v)\<^sup>2 + (ycomp v)\<^sup>2"

definition magnitude :: "vector2d \<Rightarrow> real" where
  "magnitude v = sqrt ((xcomp v)\<^sup>2 + (ycomp v)\<^sup>2)"

definition normalise_result :: "vector2d \<Rightarrow> vector2d" where
  "normalise_result a =
     (if magnitude a \<noteq> 0 then \<lparr>xcomp = xcomp a / magnitude a, ycomp = ycomp a / magnitude a\<rparr>
      else \<lparr>xcomp = 0, ycomp = 0\<rparr>)"

text \<open>\<^verbatim>\<open>normalise\<close> works in place and leaves a vector of magnitude 0 as it is.\<close>

definition normalise :: "vector2d \<Rightarrow> vector2d" where
  "normalise a =
     (if magnitude a \<noteq> 0 then \<lparr>xcomp = xcomp a / magnitude a, ycomp = ycomp a / magnitude a\<rparr>
      else a)"

subsection \<open>Comparisons\<close>

text \<open>
  What a comparison method can be handed: another vector, or anything else (the
  \<^verbatim>\<open>is_vector\<close> wrapper raises \<^verbatim>\<open>TypeError\<close> for the latter).
\<close>

datatype py_value = PyVector vector2d | PyNumber real | PyOther

text \<open>
  Attribute lookup on a \<^verbatim>\<open>Vector2D\<close> instance, for the numeric attributes the class
  defines: the properties \<^verbatim>\<open>x\<close>, \<^verbatim>\<open>y\<close>, \<^verbatim>\<open>magnitude\<close> and \<^verbatim>\<open>magnitude_squared\<close>. Any
  other name that is neither a method of the class nor inherited from \<^verbatim>\<open>object\<close> raises
  \<^verbatim>\<open>AttributeError\<close>; the class has no \<^verbatim>\<open>__getattr__\<close> and nothing in the repository
  sets further attributes on a vector.
\<close>

definition vector2d_getattr :: "string \<Rightarrow> vector2d \<Rightarrow> py_error + real" where
  "vector2d_getattr name v =
     (if name = ''x'' then Inr (xcomp v)
      else if name = ''y'' then Inr (ycomp v)
      else if name = ''magnitude'' then Inr (magnitude v)
      else if name = ''magnitude_squared'' then Inr (magnitude_squared v)
      else Inl AttributeError)"

text \<open>
  \<^verbatim>\<open>return self.magnitude_squared < vector.magnitude_sqared\<close>: the left attribute is read
  first, then the right one, then the numbers are compared.
\<close>

definition compare_attrs ::
  "(real \<Rightarrow> real \<Rightarrow> bool) \<Rightarrow> string \<Rightarrow> string \<Rightarrow> vector2d \<Rightarrow> py_value \<Rightarrow> py_error + bool" where
  "compare_attrs rel left right self obj =
     (case obj of
        PyVector vector \<Rightarrow>
          (case vector2d_getattr left self of
             Inl e \<Rightarrow> Inl e
           | Inr a \<Rightarrow>
               (case vector2d_getattr right vector of
                  Inl e \<Rightarrow> Inl e
                | Inr b \<Rightarrow> Inr (rel a b)))
      | _ \<Rightarrow> Inl TypeError)"

definition vector2d_lt :: "vector2d \<Rightarrow> py_value \<Rightarrow> py_error + bool" where
  "vector2d_lt = compare_attrs (<) ''magnitude_squared'' ''magnitude_sqared''"

definition vector2d_le :: "vector2d \<Rightarrow> py_value \<Rightarrow> py_error + bool" where
  "vector2d_le = compare_attrs (\<le>) ''magnitude_squared'' ''magnitude_sqared''"

definition vector2d_ge :: "vector2d \<Rightarrow> py_value \<Rightarrow> py_error + bool" where
  "vector2d_ge = compare_attrs (\<ge>) ''magnitude_squared'' ''magnitude_sqared''"

definition vector2d_gt :: "vector2d \<Rightarrow> py_value \<Rightarrow> py_error + bool" where
  "vector2d_gt = compare_attrs (>) ''magnitude_squared'' ''magnitude_sqared''"

text \<open>\<^verbatim>\<open>return self.x == vector.x and self.y == vector.y\<close>, behind the same wrapper.\<close>

definition vector2d_eq :: "vector2d \<Rightarrow> py_value \<Rightarrow> py_error + bool" where
  "vector2d_eq self obj =
     (case obj of
        PyVector vector \<Rightarrow> Inr (xcomp self = xcomp vector \<and> ycomp self = ycomp vector)
      | _ \<Rightarrow> Inl TypeError)"

definition vector2d_ne :: "vector2d \<Rightarrow> py_value \<Rightarrow> py_error + bool" where
  "vector2d_ne self obj =
     (case obj of
        PyVector vector \<Rightarrow> Inr (xcomp self \<noteq> xcomp vector \<or> ycomp self \<noteq> ycomp vector)
      | _ \<Rightarrow> Inl TypeError)"

section \<open>Geometry and ball physics (simulation.py)\<close>

text \<open>
  A function of the module that can raise returns \<open>py_error + 'a\<close>; one that runs the
  residual-overlap loop of \<^verbatim>\<open>collide_with_ball\<close>, which need not end, returns an
  \<open>option\<close> around it, \<open>None\<close> standing for a call that never returns.
\<close>

definition line_segment_init :: "vector2d \<Rightarrow> vector2d \<Rightarrow> line_segment" where
  "line_segment_init c1 c2 = \<lparr>coord1 = c1, coord2 = c2, seg_vector = vector2d_sub c2 c1\<rparr>"

definition coord_within_bounds :: "line_segment \<Rightarrow> vector2d \<Rightarrow> real \<Rightarrow> bool" where
  "coord_within_bounds line coord extra =
     ((xcomp (coord1 line) - extra < xcomp coord \<and> xcomp coord < xcomp (coord2 line) + extra) \<or>
      (xcomp (coord2 line) - extra < xcomp coord \<and> xcomp coord < xcomp (coord1 line) + extra) \<or>
      (ycomp (coord1 line) - extra < ycomp coord \<and> ycomp coord < ycomp (coord2 line) + extra) \<or>
      (ycomp (coord2 line) - extra < ycomp coord \<and> ycomp coord < ycomp (coord1 line) + extra))"

definition circle_line_collision_check :: "circle \<Rightarrow> line_segment \<Rightarrow> bool" where
  "circle_line_collision_check c line =
     (let distance_vector = vector2d_sub (centre c) (coord1 line);
          normalised_line_vector = normalise_result (seg_vector line);
          projected_magnitude = dot_product distance_vector normalised_line_vector;
          projected_vector = vector2d_mul normalised_line_vector projected_magnitude;
          new_position = vector2d_add (coord1 line) projected_vector
      in if coord_within_bounds line new_position 0
         then magnitude_squared (vector2d_sub (centre c) new_position) \<le> (radius c)\<^sup>2
         else min (magnitude_squared (vector2d_sub (coord1 line) (centre c)))
                  (magnitude_squared (vector2d_sub (coord2 line) (centre c)))
              \<le> (radius c)\<^sup>2)"

definition circle_circle_collision_check :: "circle \<Rightarrow> circle \<Rightarrow> bool" where
  "circle_circle_collision_check circle1 circle2 =
     (let distance_between_squared = magnitude_squared (vector2d_sub (centre circle2) (centre circle1))
      in if distance_between_squared > (radius circle1 + radius circle2)\<^sup>2 then False
         else if distance_between_squared < (radius circle1 - radius circle2)\<^sup>2 then False
         else True)"

text \<open>\<^verbatim>\<open>Circle.contains(coordinate, extra=0)\<close> for a vector argument.\<close>

definition contains :: "circle \<Rightarrow> vector2d \<Rightarrow> real \<Rightarrow> bool" where
  "contains c coordinate extra =
     (magnitude_squared (vector2d_sub coordinate (centre c)) \<le> (radius c + extra)\<^sup>2)"

subsection \<open>Ball\<close>

text \<open>
  \<^verbatim>\<open>Ball.__init__(coords, settings, striped, number)\<close>. The area is \<^verbatim>\<open>2 * math.pi * radius**2\<close>.
\<close>

definition ball_init :: "vector2d \<Rightarrow> settings \<Rightarrow> bool \<Rightarrow> int option \<Rightarrow> ball" where
  "ball_init coords st is_striped n =
     \<lparr>number = n, striped = is_striped, pos = coords, new_pos = coords, old_pos = coords,
      ball_rad = ball_radius st, mass = ball_mass st,
      normal_contact = - ball_mass st * gravity st,
      vel = \<lparr>xcomp = 0, ycomp = 0\<rparr>, applied_force = None,
      air_res_coeff = (- air_density st * ball_coeff_of_drag st * (2 * pi * (ball_radius st)\<^sup>2)) / 2,
      colliding = False, hit_rail = False, can_collide = True,
      attempted_force_application = False, ball_settings = st\<rparr>"

definition representation :: "ball \<Rightarrow> circle" where
  "representation b = \<lparr>centre = pos b, radius = ball_rad b\<rparr>"

definition apply_force :: "real \<Rightarrow> real \<Rightarrow> real \<Rightarrow> ball \<Rightarrow> ball" where
  "apply_force time_of_application force angle self =
     (let self1 = self\<lparr>attempted_force_application := True\<rparr>
      in if magnitude_squared (vel self1) = 0 \<and>
            force \<le> coeff_of_static_friction (ball_settings self1) * normal_contact self1 * - 1
         then self1
         else self1\<lparr>applied_force :=
                      Some (\<lparr>xcomp = cos angle * force, ycomp = sin angle * force\<rparr>,
                            time_of_application)\<rparr>)"

text \<open>
  The part of \<^verbatim>\<open>update_physics\<close> after the bookkeeping of the impulse: forces,
  acceleration (dividing by a mass of 0 raises), velocity and position, the two guards
  on the velocity, and the write of \<^verbatim>\<open>new_pos\<close> into the circle's centre.
\<close>

definition integrate :: "real \<Rightarrow> ball \<Rightarrow> py_error + ball" where
  "integrate time self =
     (let st = ball_settings self;
          friction = vector2d_mul (normalise_result (vel self))
                       (coeff_of_rolling_friction st * normal_contact self);
          air_res = vector2d_mul (vector2d_mul (vel self) (air_res_coeff self)) (magnitude (vel self));
          resultant = (case applied_force self of
                         Some (force, remaining) \<Rightarrow> vector2d_add (vector2d_add force friction) air_res
                       | None \<Rightarrow> vector2d_add friction air_res);
          self1 = (case applied_force self of
                     Some (force, remaining) \<Rightarrow>
                       if remaining \<le> 0 then self\<lparr>applied_force := None\<rparr> else self
                   | None \<Rightarrow> self)
      in case vector2d_truediv resultant (mass self1) of
           Inl e \<Rightarrow> Inl e
         | Inr acceleration \<Rightarrow>
             (let previous_vel = vel self1;
                  self2 = self1\<lparr>vel := vector2d_add (vel self1) (vector2d_mul acceleration time)\<rparr>;
                  self3 = self2\<lparr>new_pos := vector2d_add (new_pos self2) (vector2d_mul (vel self2) time)\<rparr>;
                  zero_vector = \<lparr>xcomp = 0, ycomp = 0\<rparr>;
                  self4 = (if vel self3 \<noteq> zero_vector \<and> previous_vel \<noteq> zero_vector \<and>
                              dot_product previous_vel (vel self3) < 0
                           then self3\<lparr>vel := zero_vector\<rparr> else self3);
                  self5 = (if \<bar>xcomp (vel self4)\<bar> < limiting_vel st
                           then self4\<lparr>vel := (vel self4)\<lparr>xcomp := 0\<rparr>\<rparr> else self4);
                  self6 = (if \<bar>ycomp (vel self5)\<bar> < limiting_vel st
                           then self5\<lparr>vel := (vel self5)\<lparr>ycomp := 0\<rparr>\<rparr> else self5)
              in Inr (self6\<lparr>pos := new_pos self6\<rparr>)))"

text \<open>
  \<^verbatim>\<open>update_physics(time)\<close>. When the impulse has less time left than the update, the
  method first calls itself for the time left; in that call the two times are equal, so
  it does not call itself again.
\<close>

function update_physics :: "real \<Rightarrow> ball \<Rightarrow> py_error + ball" where
  "update_physics time self =
     (let self1 = self\<lparr>colliding := False, hit_rail := False\<rparr>
      in case applied_force self1 of
           None \<Rightarrow> integrate time self1
         | Some (force, time_remaining) \<Rightarrow>
             if time_remaining < time
             then (case update_physics time_remaining self1 of
                     Inl e \<Rightarrow> Inl e
                   | Inr self2 \<Rightarrow> integrate (time - time_remaining) (self2\<lparr>applied_force := None\<rparr>))
             else integrate time (self1\<lparr>applied_force := Some (force, time_remaining - time)\<rparr>))"
  by pat_completeness auto
termination
  by (relation "measure (\<lambda>(time, self).
        case applied_force self of
          None \<Rightarrow> 0
        | Some (force, time_remaining) \<Rightarrow> if time_remaining < time then 1 else 0)")
     auto

declare update_physics.simps [simp del]

definition update_position :: "ball \<Rightarrow> ball" where
  "update_position self = self\<lparr>old_pos := pos self, pos := new_pos self\<rparr>"

definition collide_with_line :: "line_segment \<Rightarrow> ball \<Rightarrow> ball" where
  "collide_with_line line self =
     (let line_vector = normalise_result (seg_vector line);
          perpendicular_line = perpendicular line_vector;
          dot = dot_product perpendicular_line (vel self);
          upper_point = vector2d_add (new_pos self) (vector2d_mul perpendicular_line (ball_rad self));
          distance_vector = vector2d_sub upper_point (coord1 line);
          upper_position = vector2d_add (coord1 line)
                             (vector2d_mul line_vector (dot_product distance_vector line_vector));
          overlap = vector2d_sub upper_position upper_point;
          overlap1 = (if dot_product overlap (vel self) \<ge> 0
                      then (let lower_point = vector2d_sub (new_pos self)
                                                (vector2d_mul perpendicular_line (ball_rad self));
                                distance_vector = vector2d_sub lower_point (coord1 line);
                                lower_position = vector2d_add (coord1 line)
                                  (vector2d_mul line_vector (dot_product distance_vector line_vector))
                            in vector2d_sub lower_position lower_point)
                      else overlap);
          new_position = vector2d_add (new_pos self) (vector2d_mul overlap1 2);
          change_in_velocity = vector2d_mul perpendicular_line
                                 (dot * (1 + table_coeff_of_rest (ball_settings self)))
      in self\<lparr>new_pos := new_position, pos := new_position,
              vel := vector2d_sub (vel self) change_in_velocity\<rparr>)"

text \<open>
  \<^verbatim>\<open>collide_with_ball\<close> up to its loop: the positional correction and the new velocities
  of the two balls, which are two different objects.
\<close>

definition collide_with_ball_main :: "ball \<Rightarrow> ball \<Rightarrow> ball \<times> ball" where
  "collide_with_ball_main self ball =
     (let normal_vector = vector2d_sub (new_pos self) (new_pos ball);
          old_movement = vector2d_sub (old_pos self) (old_pos ball);
          angle_between = dot_product normal_vector old_movement;
          factor = (if angle_between > 0 then 1 else - 1);
          overlap = (ball_rad self + ball_rad ball) - factor * magnitude normal_vector;
          self_vel_mag = magnitude (vel self);
          ball_vel_mag = magnitude (vel ball);
          total_vel_mag = self_vel_mag + ball_vel_mag;
          self_new_pos =
            (if total_vel_mag \<noteq> 0
             then vector2d_sub (new_pos self)
                    (vector2d_mul (vector2d_mul (vector2d_mul (normalise_result (vel self)) overlap)
                       (self_vel_mag / total_vel_mag)) 2)
             else vector2d_sub (new_pos self)
                    (vector2d_mul (vector2d_mul
                       (normalise_result (vector2d_sub (new_pos self) (old_pos self))) overlap) 0.5));
          ball_new_pos =
            (if total_vel_mag \<noteq> 0
             then vector2d_sub (new_pos ball)
                    (vector2d_mul (vector2d_mul (vector2d_mul (normalise_result (vel ball)) overlap)
                       (ball_vel_mag / total_vel_mag)) 2)
             else vector2d_sub (new_pos ball)
                    (vector2d_mul (vector2d_mul
                       (normalise_result (vector2d_sub (new_pos ball) (old_pos ball))) overlap) 0.5));
          normal_vector1 = normalise normal_vector;
          self_normal_vel = dot_product (vel self) normal_vector1;
          ball_normal_vel = dot_product (vel ball) normal_vector1;
          perp = perpendicular normal_vector1;
          self_perpendicular_vel = vector2d_mul perp (dot_product (vel self) perp);
          ball_perpendicular_vel = vector2d_mul perp (dot_product (vel ball) perp);
          coeff = ball_coeff_of_rest (ball_settings self);
          self_vel = vector2d_mul normal_vector1
                       (0.5 * ((1 - coeff) * self_normal_vel + (1 + coeff) * ball_normal_vel));
          ball_vel = vector2d_add
                       (vector2d_sub (vector2d_mul normal_vector1 (self_normal_vel + ball_normal_vel))
                          self_vel)
                       ball_perpendicular_vel
      in (self\<lparr>new_pos := self_new_pos, pos := self_new_pos,
               vel := vector2d_add self_vel self_perpendicular_vel\<rparr>,
          ball\<lparr>new_pos := ball_new_pos, pos := ball_new_pos, vel := ball_vel\<rparr>))"

text \<open>One round of the loop \<^verbatim>\<open>while circle_circle_collision_check(...)\<close>.\<close>

definition separate_step :: "vector2d \<Rightarrow> vector2d \<Rightarrow> ball \<times> ball \<Rightarrow> py_error + ball \<times> ball" where
  "separate_step old_self_vel old_ball_vel sb =
     (let self = fst sb; ball = snd sb; zero_vector = \<lparr>xcomp = 0, ycomp = 0\<rparr>
      in if vel self = zero_vector \<or> vel ball = zero_vector
         then Inr (update_position
                     (self\<lparr>new_pos := vector2d_add (new_pos self) (vector2d_mul old_self_vel 0.0001)\<rparr>),
                   update_position
                     (ball\<lparr>new_pos := vector2d_add (new_pos ball) (vector2d_mul old_ball_vel 0.0001)\<rparr>))
         else (case update_physics 0.0001 self of
                 Inl e \<Rightarrow> Inl e
               | Inr self1 \<Rightarrow>
                   (case update_physics 0.0001 ball of
                      Inl e \<Rightarrow> Inl e
                    | Inr ball1 \<Rightarrow>
                        Inr (self1\<lparr>pos := new_pos self1\<rparr>, ball1\<lparr>pos := new_pos ball1\<rparr>))))"

partial_function (option) separate_loop ::
  "vector2d \<Rightarrow> vector2d \<Rightarrow> ball \<times> ball \<Rightarrow> (py_error + ball \<times> ball) option" where
  "separate_loop old_self_vel old_ball_vel sb =
     (if circle_circle_collision_check (representation (fst sb)) (representation (snd sb))
      then (case separate_step old_self_vel old_ball_vel sb of
              Inl e \<Rightarrow> Some (Inl e)
            | Inr sb1 \<Rightarrow> separate_loop old_self_vel old_ball_vel sb1)
      else Some (Inr sb))"

definition collide_with_ball :: "ball \<Rightarrow> ball \<Rightarrow> (py_error + ball \<times> ball) option" where
  "collide_with_ball self ball =
     separate_loop (vel self) (vel ball) (collide_with_ball_main self ball)"

text \<open>
  \<^verbatim>\<open>resolve_bounding_box_collision\<close>: each of the two tests computes the mirrored position
  first, collides with an axis-parallel line and then sets the position.
\<close>

definition bounding_box_x :: "vector2d \<Rightarrow> vector2d \<Rightarrow> ball \<times> bool \<Rightarrow> ball \<times> bool" where
  "bounding_box_x lower_pos upper self_outside =
     (let self = fst self_outside
      in if \<not> (xcomp lower_pos < xcomp (new_pos self) \<and> xcomp (new_pos self) < xcomp upper)
         then (let overlap = xcomp (new_pos self) -
                     (if xcomp lower_pos \<ge> xcomp (new_pos self) then xcomp lower_pos else xcomp upper);
                   new_position = \<lparr>xcomp = xcomp (new_pos self) - overlap * 2, ycomp = ycomp (new_pos self)\<rparr>;
                   line = line_segment_init \<lparr>xcomp = 0, ycomp = 0\<rparr> \<lparr>xcomp = 0, ycomp = 1\<rparr>;
                   self1 = collide_with_line line self
               in (self1\<lparr>new_pos := new_position, pos := new_position\<rparr>, True))
         else self_outside)"

definition bounding_box_y :: "vector2d \<Rightarrow> vector2d \<Rightarrow> ball \<times> bool \<Rightarrow> ball \<times> bool" where
  "bounding_box_y lower_pos upper self_outside =
     (let self = fst self_outside
      in if \<not> (ycomp lower_pos < ycomp (new_pos self) \<and> ycomp (new_pos self) < ycomp upper)
         then (let overlap = ycomp (new_pos self) -
                     (if ycomp lower_pos \<ge> ycomp (new_pos self) then ycomp lower_pos else ycomp upper);
                   new_position = \<lparr>xcomp = xcomp (new_pos self), ycomp = ycomp (new_pos self) - overlap * 2\<rparr>;
                   line = line_segment_init \<lparr>xcomp = 0, ycomp = 0\<rparr> \<lparr>xcomp = 1, ycomp = 0\<rparr>;
                   self1 = collide_with_line line self
               in (self1\<lparr>new_pos := new_position, pos := new_position\<rparr>, True))
         else self_outside)"

definition resolve_bounding_box_collision :: "vector2d \<Rightarrow> vector2d \<Rightarrow> ball \<Rightarrow> ball \<times> bool" where
  "resolve_bounding_box_collision lower_pos upper self =
     bounding_box_y lower_pos upper (bounding_box_x lower_pos upper (self, False))"

text \<open>
  \<^verbatim>\<open>get_collisions\<close> works on the store: \<open>self\<close> and the balls of the list are
  references. The first loop carries the store and the list \<^verbatim>\<open>hit\<close> of the method.
\<close>

fun get_collisions_balls ::
  "ref \<Rightarrow> ref list \<Rightarrow> (ref \<Rightarrow> ball) \<times> ref list \<Rightarrow> (py_error + (ref \<Rightarrow> ball) \<times> ref list) option" where
  "get_collisions_balls self [] hh = Some (Inr hh)"
| "get_collisions_balls self (b # bs) hh =
     (let h = fst hh
      in if b \<noteq> self \<and> can_collide (h b) \<and>
            circle_circle_collision_check (representation (h self)) (representation (h b))
         then (case collide_with_ball (h self) (h b) of
                 None \<Rightarrow> None
               | Some (Inl e) \<Rightarrow> Some (Inl e)
               | Some (Inr (self1, ball1)) \<Rightarrow>
                   get_collisions_balls self bs
                     (h(self := self1\<lparr>colliding := True\<rparr>, b := ball1\<lparr>colliding := True\<rparr>),
                      snd hh @ [b]))
         else get_collisions_balls self bs hh)"

fun get_collisions_rails :: "line_segment list \<Rightarrow> ball \<Rightarrow> ball" where
  "get_collisions_rails [] self = self"
| "get_collisions_rails (rail # rs) self =
     (if circle_line_collision_check (representation self) rail
      then get_collisions_rails rs (collide_with_line rail (self\<lparr>hit_rail := True\<rparr>))
      else get_collisions_rails rs self)"

definition get_collisions ::
  "ref \<Rightarrow> ref list \<Rightarrow> line_segment list \<Rightarrow> vector2d \<Rightarrow> vector2d \<Rightarrow> (ref \<Rightarrow> ball) \<Rightarrow>
   (py_error + (ref \<Rightarrow> ball) \<times> ref list) option" where
  "get_collisions self bs rs lower_pos upper h =
     (case get_collisions_balls self bs (h, []) of
        None \<Rightarrow> None
      | Some (Inl e) \<Rightarrow> Some (Inl e)
      | Some (Inr (h1, collided)) \<Rightarrow>
          (let self1 = get_collisions_rails rs (h1 self);
               self2 = (if \<not> hit_rail self1
                        then (let r = resolve_bounding_box_collision lower_pos upper self1
                              in (fst r)\<lparr>hit_rail := snd r\<rparr>)
                        else self1)
           in Some (Inr (h1(self := self2), collided))))"

section \<open>Table (simulation.py)\<close>

text \<open>
  A \<^verbatim>\<open>for\<close> loop over a list that its body leaves alone, the body working on a state
  and able to raise or not to return.
\<close>

fun for_each ::
  "('a \<Rightarrow> 's \<Rightarrow> (py_error + 's) option) \<Rightarrow> 'a list \<Rightarrow> 's \<Rightarrow> (py_error + 's) option" where
  "for_each body [] s = Some (Inr s)"
| "for_each body (x # xs) s =
     (case body x s of
        None \<Rightarrow> None
      | Some (Inl e) \<Rightarrow> Some (Inl e)
      | Some (Inr s1) \<Rightarrow> for_each body xs s1)"

text \<open>
  \<^verbatim>\<open>del xs[k]\<close>: a negative index counts from the end, an index out of range raises.
\<close>

definition py_del :: "int \<Rightarrow> 'a list \<Rightarrow> py_error + 'a list" where
  "py_del k xs =
     (let n = int (length xs); j = (if k < 0 then k + n else k)
      in if 0 \<le> j \<and> j < n then Inr (take (nat j) xs @ drop (nat j + 1) xs)
         else Inl IndexError)"

definition reset_counts :: "table \<Rightarrow> table" where
  "reset_counts t = t\<lparr>hit := [], pocketed := [], rail_contacts := []\<rparr>"

definition moving :: "ball \<Rightarrow> bool" where
  "moving b = (xcomp (vel b) \<noteq> 0 \<or> ycomp (vel b) \<noteq> 0)"

text \<open>
  The inner loop over the pockets acts at the first pocket that contains the centre and
  breaks, so it acts once if some pocket contains it.
\<close>

definition in_some_pocket :: "table \<Rightarrow> ball \<Rightarrow> bool" where
  "in_some_pocket t b = list_ex (\<lambda>pocket. contains pocket (pos b) 0) (pockets t)"

text \<open>
  \<^verbatim>\<open>for index, ball in enumerate(self.balls)\<close> over a list that the body shortens. The
  list iterator keeps a position and stops when the position reaches the current length;
  \<open>enumerate\<close> counts in step with it, so \<open>index\<close> is both. The body deletes at
  \<^verbatim>\<open>index - change_factor\<close>.
\<close>

function resolve_pockets_loop :: "nat \<Rightarrow> int \<Rightarrow> table \<Rightarrow> py_error + table" where
  "resolve_pockets_loop index change_factor t =
     (if index < length (balls t)
      then (let b = balls t ! index; ball = heap t b in
            if moving ball \<and> in_some_pocket t ball
            then (if Some b \<noteq> cue_ball t
                  then (case py_del (int index - change_factor) (balls t) of
                          Inl e \<Rightarrow> Inl e
                        | Inr bs \<Rightarrow>
                            resolve_pockets_loop (index + 1) (change_factor + 1)
                              (t\<lparr>pocketed := pocketed t @ [b], balls := bs\<rparr>))
                  else resolve_pockets_loop (index + 1) change_factor
                         (t\<lparr>pocketed := pocketed t @ [b], holding := Some b,
                            heap := (heap t)(b := ball\<lparr>vel := \<lparr>xcomp = 0, ycomp = 0\<rparr>,
                                                     can_collide := False\<rparr>)\<rparr>))
            else resolve_pockets_loop (index + 1) change_factor t)
      else Inr t)"
  by pat_completeness auto
termination
proof (relation "measure (\<lambda>(index, change_factor, t). length (balls t) - index)")
  show "wf (measure (\<lambda>(index, change_factor, t). length (balls t) - index))"
    by simp
next
  fix index :: nat and change_factor :: int and t :: table and b ball bs
  assume "index < length (balls t)"
    and "py_del (int index - change_factor) (balls t) = Inr bs"
  then show "((index + 1, change_factor + 1, t\<lparr>pocketed := pocketed t @ [b], balls := bs\<rparr>),
              index, change_factor, t)
             \<in> measure (\<lambda>(index, change_factor, t). length (balls t) - index)"
    by (auto simp add: py_del_def Let_def split: if_splits)
qed auto

declare resolve_pockets_loop.simps [simp del]

definition resolve_pockets :: "table \<Rightarrow> py_error + table" where
  "resolve_pockets t = resolve_pockets_loop 0 0 t"

text \<open>
  \<^verbatim>\<open>if x not in xs and x is not self.cue_ball: xs.append(x)\<close>, the step that fills the
  accumulators \<^verbatim>\<open>hit\<close> and \<^verbatim>\<open>rail_contacts\<close>.
\<close>

definition record_ball :: "table \<Rightarrow> ref \<Rightarrow> ref list \<Rightarrow> ref list" where
  "record_ball t b xs = (if b \<notin> set xs \<and> Some b \<noteq> cue_ball t then xs @ [b] else xs)"

definition resolve_collisions_ball :: "ref \<Rightarrow> table \<Rightarrow> (py_error + table) option" where
  "resolve_collisions_ball b t =
     (if \<not> colliding (heap t b) \<and> can_collide (heap t b) \<and> moving (heap t b)
      then (case get_collisions b (balls t) (rails t) (table_pos t) (upper_pos t) (heap t) of
              None \<Rightarrow> None
            | Some (Inl e) \<Rightarrow> Some (Inl e)
            | Some (Inr (h1, collided_with)) \<Rightarrow>
                (let hit1 = (if colliding (h1 b)
                             then fold (record_ball t) collided_with (record_ball t b (hit t))
                             else hit t);
                     rail_contacts1 = (if hit_rail (h1 b) then record_ball t b (rail_contacts t)
                                       else rail_contacts t)
                 in Some (Inr (t\<lparr>heap := h1, hit := hit1, rail_contacts := rail_contacts1\<rparr>))))
      else Some (Inr t))"

definition resolve_collisions :: "table \<Rightarrow> (py_error + table) option" where
  "resolve_collisions t = for_each resolve_collisions_ball (balls t) t"

text \<open>The body of the first loop of \<^verbatim>\<open>Table.update\<close>.\<close>

definition update_ball :: "real \<Rightarrow> ref \<Rightarrow> table \<Rightarrow> (py_error + table) option" where
  "update_ball time b t =
     (if moving (heap t b) \<or> applied_force (heap t b) \<noteq> None
      then (case update_physics time (heap t b) of
              Inl e \<Rightarrow> Some (Inl e)
            | Inr ball1 \<Rightarrow> Some (Inr (t\<lparr>heap := (heap t)(b := ball1), in_motion := True\<rparr>)))
      else if attempted_force_application (heap t b)
      then Some (Inr (t\<lparr>heap := (heap t)(b := (heap t b)\<lparr>attempted_force_application := False\<rparr>),
                         in_motion := True\<rparr>))
      else Some (Inr t))"

definition update_positions :: "table \<Rightarrow> table" where
  "update_positions t =
     t\<lparr>heap := fold (\<lambda>b h. h(b := update_position (h b))) (balls t) (heap t)\<rparr>"

definition update :: "real \<Rightarrow> table \<Rightarrow> (py_error + table) option" where
  "update time t =
     (let t0 = t\<lparr>previously_in_motion := in_motion t, in_motion := False\<rparr>
      in case for_each (update_ball time) (balls t0) t0 of
           None \<Rightarrow> None
         | Some (Inl e) \<Rightarrow> Some (Inl e)
         | Some (Inr t1) \<Rightarrow>
             (case resolve_collisions t1 of
                None \<Rightarrow> None
              | Some (Inl e) \<Rightarrow> Some (Inl e)
              | Some (Inr t2) \<Rightarrow> Some (resolve_pockets (update_positions t2))))"

section \<open>Rule checks (server.Lobby, client.OfflineGame)\<close>

definition other_turn :: "lobby \<Rightarrow> int" where
  "other_turn s = (if player_turn s = 1 then 2 else 1)"

definition list_at :: "lobby \<Rightarrow> ball_list \<Rightarrow> ref list" where
  "list_at s l =
     (case l of Own_p1 \<Rightarrow> own_p1 s | Own_p2 \<Rightarrow> own_p2 s
      | Striped_group \<Rightarrow> striped_balls s | Spotted_group \<Rightarrow> spotted_balls s)"

definition set_list_at :: "ball_list \<Rightarrow> ref list \<Rightarrow> lobby \<Rightarrow> lobby" where
  "set_list_at l xs s =
     (case l of Own_p1 \<Rightarrow> s\<lparr>own_p1 := xs\<rparr> | Own_p2 \<Rightarrow> s\<lparr>own_p2 := xs\<rparr>
      | Striped_group \<Rightarrow> s\<lparr>striped_balls := xs\<rparr> | Spotted_group \<Rightarrow> s\<lparr>spotted_balls := xs\<rparr>)"

definition p1_balls :: "lobby \<Rightarrow> ref list" where
  "p1_balls s = list_at s (p1_balls_at s)"

definition p2_balls :: "lobby \<Rightarrow> ref list" where
  "p2_balls s = list_at s (p2_balls_at s)"

text \<open>The list of the player whose turn it is, as every check computes it.\<close>

definition player_balls :: "lobby \<Rightarrow> ref list" where
  "player_balls s = (if player_turn s = 1 then p1_balls s else p2_balls s)"

definition send_players :: "lobby_command \<Rightarrow> lobby \<Rightarrow> lobby" where
  "send_players msg s = s\<lparr>outbox := outbox s @ [(All_players, msg)]\<rparr>"

definition close_table :: "bool \<Rightarrow> lobby \<Rightarrow> lobby" where
  "close_table p1_striped s =
     (if p1_striped
      then s\<lparr>p1_is_striped := Some p1_striped,
             p1_balls_at := Striped_group, p2_balls_at := Spotted_group\<rparr>
      else s\<lparr>p1_is_striped := Some p1_striped,
             p1_balls_at := Spotted_group, p2_balls_at := Striped_group\<rparr>)"

text \<open>
  \<^verbatim>\<open>len(hit) > 0 and hit[0] is eight_ball\<close>. A table without an 8-ball has
  \<^verbatim>\<open>eight_ball = None\<close>, which no ball is.
\<close>

definition first_hit_is_eight :: "table \<Rightarrow> bool" where
  "first_hit_is_eight t = (case hit t of [] \<Rightarrow> False | h # _ \<Rightarrow> Some h = eight_ball t)"

fun open_table_loop :: "ref list \<Rightarrow> lobby \<Rightarrow> bool \<times> lobby" where
  "open_table_loop [] s = (False, s)"
| "open_table_loop (b # bs) s =
     (if Some b \<noteq> eight_ball (lobby_table s) \<and> Some b \<noteq> cue_ball (lobby_table s)
      then (True,
            close_table ((striped (heap (lobby_table s) b) \<and> player_turn s = 1) \<or>
                         (\<not> striped (heap (lobby_table s) b) \<and> player_turn s = 2)) s)
      else open_table_loop bs s)"

definition open_table_check :: "lobby \<Rightarrow> bool \<times> lobby" where
  "open_table_check s =
     (if first_hit_is_eight (lobby_table s) then (False, s)
      else open_table_loop (pocketed (lobby_table s)) s)"

text \<open>The loop of the break check carries the two flags \<^verbatim>\<open>foul\<close> and \<^verbatim>\<open>force_redo\<close>.\<close>

fun break_loop :: "table \<Rightarrow> ref list \<Rightarrow> bool \<times> bool \<Rightarrow> bool \<times> bool" where
  "break_loop t [] flags = flags"
| "break_loop t (b # bs) (foul, force_redo) =
     (if Some b = eight_ball t then break_loop t bs (True, True)
      else if Some b = cue_ball t then break_loop t bs (True, force_redo)
      else break_loop t bs (foul, force_redo))"

definition break_check :: "lobby \<Rightarrow> bool \<times> bool" where
  "break_check s =
     (let t = lobby_table s in
      if length (pocketed t) = 0 \<and> length (rail_contacts t) < 4 then (True, False)
      else break_loop t (pocketed t) (False, False))"

text \<open>
  \<^verbatim>\<open>__redo(forced)\<close> stores the next starting player in the settings and calls
  \<^verbatim>\<open>__create_game\<close>, which tells the players to load the settings, builds the table and
  the two groups anew (\<^verbatim>\<open>__construct_objects\<close> draws the rack at random, so the new table
  and the new lists of spotted and striped balls are a parameter), runs
  \<^verbatim>\<open>__reset_state\<close> and tells each player to create the game.
\<close>

definition reset_state :: "lobby \<Rightarrow> lobby" where
  "reset_state s =
     s\<lparr>is_break := True, is_open := True, own_p1 := [], own_p2 := [],
       p1_balls_at := Own_p1, p2_balls_at := Own_p2,
       player_turn := starting_player s, p1_is_striped := None, check_state := False,
       can_shoot := True, can_pass_turn := False, checked := True\<rparr>"

definition create_game :: "table \<times> ref list \<times> ref list \<Rightarrow> lobby \<Rightarrow> lobby" where
  "create_game rack s =
     (let s1 = send_players Load_settings s;
          s2 = s1\<lparr>lobby_table := fst rack, spotted_balls := fst (snd rack),
                  striped_balls := snd (snd rack)\<rparr>;
          s3 = reset_state s2
      in s3\<lparr>outbox := outbox s3 @ [(Player 1, Create_game 1), (Player 2, Create_game 2)]\<rparr>)"

definition redo :: "bool \<Rightarrow> table \<times> ref list \<times> ref list \<Rightarrow> lobby \<Rightarrow> lobby" where
  "redo forced rack s =
     create_game rack (s\<lparr>starting_player := (if forced then other_turn s else player_turn s)\<rparr>)"

text \<open>\<^verbatim>\<open>for index, ball in enumerate(pocketed)\<close>; falling off the loop returns \<^verbatim>\<open>None\<close>.\<close>

fun victory_loop :: "nat \<Rightarrow> ref list \<Rightarrow> lobby \<Rightarrow> int option" where
  "victory_loop index [] s = None"
| "victory_loop index (b # bs) s =
     (if Some b = eight_ball (lobby_table s)
      then (if index \<noteq> 0 \<or> is_open s \<or> length (player_balls s) \<noteq> 0
            then Some (other_turn s)
            else Some (player_turn s))
      else victory_loop (index + 1) bs s)"

definition victory_check :: "lobby \<Rightarrow> int option" where
  "victory_check s = victory_loop 0 (pocketed (lobby_table s)) s"

text \<open>The foul check collects the reasons in a list and reports whether it is non-empty.\<close>

definition foul_first_hit :: "lobby \<Rightarrow> string list" where
  "foul_first_hit s =
     (case hit (lobby_table s) of
        [] \<Rightarrow> []
      | h # _ \<Rightarrow>
          if \<not> is_open s \<and> h \<notin> set (player_balls s)
          then (if Some h = eight_ball (lobby_table s)
                then (if length (player_balls s) \<noteq> 0
                      then [''Fouled by hitting the 8-ball first when you still have balls left to pocket.'']
                      else [])
                else [''Fouled by hitting one of your opponent's balls first instead of your own.''])
          else [])"

definition foul_no_pocket :: "table \<Rightarrow> string list" where
  "foul_no_pocket t =
     (if length (pocketed t) = 0 \<and> length (rail_contacts t) = 0
      then [''Fouled by failure to either pocket a ball or hit a numbered ball into a rail.'']
      else if length (pocketed t) = 1 \<and> Some (pocketed t ! 0) = cue_ball t
      then [''Fouled by failure to either pocket a ball or hit a numbered ball into a rail.'']
      else [])"

fun foul_cue_loop :: "table \<Rightarrow> ref list \<Rightarrow> string list" where
  "foul_cue_loop t [] = []"
| "foul_cue_loop t (b # bs) =
     (if Some b = cue_ball t then [''Fouled by pocketing the cue ball.'']
      else foul_cue_loop t bs)"

definition foul_check :: "lobby \<Rightarrow> bool \<times> string list" where
  "foul_check s =
     (let t = lobby_table s;
          fouls = (if length (hit t) = 0 then [''Fouled by failure to hit any ball.''] else [])
                  @ foul_first_hit s @ foul_no_pocket t @ foul_cue_loop t (pocketed t)
      in (length fouls > 0, fouls))"

text \<open>
  \<^verbatim>\<open>OfflineGame._foul_check\<close> differs in its last loop only: a pocketed ball is looked at
  when it is not in the shooter's list, and the loop stops at the cue ball.
\<close>

fun offline_foul_cue_loop :: "lobby \<Rightarrow> ref list \<Rightarrow> string list" where
  "offline_foul_cue_loop s [] = []"
| "offline_foul_cue_loop s (b # bs) =
     (if b \<notin> set (player_balls s) \<and> Some b = cue_ball (lobby_table s)
      then [''Fouled by pocketing the cue ball.'']
      else offline_foul_cue_loop s bs)"

definition offline_foul_check :: "lobby \<Rightarrow> bool" where
  "offline_foul_check s =
     (let t = lobby_table s;
          fouls = (if length (hit t) = 0 then [''Fouled by failure to hit any ball.''] else [])
                  @ foul_first_hit s @ foul_no_pocket t @ offline_foul_cue_loop s (pocketed t)
      in (if length fouls > 0 then True else False))"

subsection \<open>Applying the rules (server.Lobby)\<close>

text \<open>
  \<^verbatim>\<open>__remove_pocketed_balls\<close>: every pocketed ball found in a player's list is removed from
  it, and the shooter may continue when one of the own balls was among them, unless the
  table is open and the 8-ball was struck first.
\<close>

fun remove_pocketed_loop :: "ref list \<Rightarrow> bool \<times> lobby \<Rightarrow> bool \<times> lobby" where
  "remove_pocketed_loop [] cs = cs"
| "remove_pocketed_loop (b # bs) (can_continue, s) =
     (if b \<in> set (p1_balls s)
      then remove_pocketed_loop bs
             (can_continue \<or> player_turn s = 1,
              set_list_at (p1_balls_at s) (remove1 b (p1_balls s)) s)
      else if b \<in> set (p2_balls s)
      then remove_pocketed_loop bs
             (can_continue \<or> player_turn s = 2,
              set_list_at (p2_balls_at s) (remove1 b (p2_balls s)) s)
      else remove_pocketed_loop bs (can_continue, s))"

definition remove_pocketed_balls :: "lobby \<Rightarrow> bool \<times> lobby" where
  "remove_pocketed_balls s =
     (let r = remove_pocketed_loop (pocketed (lobby_table s)) (False, s)
      in if is_open (snd r) \<and> first_hit_is_eight (lobby_table (snd r)) then (False, snd r)
         else r)"

text \<open>
  \<^verbatim>\<open>__apply_foul_penalty\<close>: the cue ball goes in hand and the turn passes. A table without
  a cue ball has \<^verbatim>\<open>cue_ball = None\<close>, on which setting \<^verbatim>\<open>can_collide\<close> raises.
\<close>

definition apply_foul_penalty :: "lobby \<Rightarrow> py_error + lobby" where
  "apply_foul_penalty s =
     (let t = lobby_table s
      in case cue_ball t of
           None \<Rightarrow> Inl AttributeError
         | Some c \<Rightarrow>
             Inr (s\<lparr>lobby_table :=
                       t\<lparr>holding := Some c,
                         heap := (heap t)(c := (heap t c)\<lparr>can_collide := False,
                                                          vel := \<lparr>xcomp = 0, ycomp = 0\<rparr>\<rparr>)\<rparr>,
                     player_turn := other_turn s\<rparr>))"

definition end_game :: "int \<Rightarrow> lobby \<Rightarrow> lobby" where
  "end_game v s = s\<lparr>finished := True, victor := Some v\<rparr>"

text \<open>
  The end of \<^verbatim>\<open>__apply_rules\<close>, reached by every branch that does not return early: the
  break ends unless it was fouled, the table closes when the open-table check said so,
  the accumulators of the table are reset and the next turn is announced.
\<close>

definition finish_turn :: "bool \<Rightarrow> bool \<Rightarrow> bool \<Rightarrow> bool \<Rightarrow> lobby \<Rightarrow> lobby" where
  "finish_turn stop_open foul force_redo may_shoot s =
     (let s1 = (if is_break s \<and> \<not> foul then s\<lparr>is_break := False\<rparr> else s);
          s2 = (if stop_open
                then (if \<not> force_redo then send_players (Close_table_command (p1_is_striped s1)) s1
                      else s1)\<lparr>is_open := False\<rparr>
                else s1);
          s3 = s2\<lparr>can_shoot := may_shoot, lobby_table := reset_counts (lobby_table s2)\<rparr>
      in send_players
           (Start_next_turn (can_pass_turn s3) (is_break s3) (is_open s3) (can_shoot s3)) s3)"

text \<open>
  The choice between redoing and keeping a fouled break goes to the player who did not
  shoot: the loop over the players sends it to player 1 when it is the turn of player
  2, and to player 2 when it is the turn of player 1.
\<close>

definition offer_redo_choice :: "lobby \<Rightarrow> lobby" where
  "offer_redo_choice s =
     (if player_turn s = 2 then s\<lparr>outbox := outbox s @ [(Player 1, Redo_choice)]\<rparr>
      else if player_turn s = 1 then s\<lparr>outbox := outbox s @ [(Player 2, Redo_choice)]\<rparr>
      else s)"

definition apply_rules ::
  "table \<times> ref list \<times> ref list \<Rightarrow> bool \<Rightarrow> bool \<Rightarrow> string list option \<Rightarrow> bool \<Rightarrow>
   int option \<Rightarrow> bool \<Rightarrow> lobby \<Rightarrow> py_error + lobby" where
  "apply_rules rack stop_open foul foul_reasons force_redo winner can_continue s =
     (if is_break s \<and> foul
      then (if force_redo
            then Inr (redo True rack (send_players Force_redo_message s))
            else (let s1 = (offer_redo_choice s)\<lparr>check_state := False\<rparr>;
                      s2 = s1\<lparr>player_turn := other_turn s1, can_pass_turn := False\<rparr>
                  in Inr (finish_turn stop_open foul force_redo False s2)))
      else (case winner of
              Some v \<Rightarrow> Inr (end_game v (send_players (Victory_command v) s))
            | None \<Rightarrow>
                if foul
                then (case apply_foul_penalty
                             (send_players (Foul_command foul_reasons) (s\<lparr>can_pass_turn := False\<rparr>)) of
                        Inl e \<Rightarrow> Inl e
                      | Inr s1 \<Rightarrow> Inr (finish_turn stop_open foul force_redo True s1))
                else if can_continue
                then Inr (finish_turn stop_open foul force_redo True (s\<lparr>can_pass_turn := True\<rparr>))
                else Inr (finish_turn stop_open foul force_redo True
                            (s\<lparr>player_turn := other_turn s, can_pass_turn := False\<rparr>))))"

text \<open>
  \<^verbatim>\<open>__check_game_state\<close>, run once the shot has settled: the checks in their fixed
  order, the removal of the pocketed balls, and the application of the rules.
\<close>

definition check_game_state :: "table \<times> ref list \<times> ref list \<Rightarrow> lobby \<Rightarrow> py_error + lobby" where
  "check_game_state rack s =
     (let opened = (if is_open s then open_table_check s else (False, s));
          stop_open = fst opened;
          s1 = snd opened;
          broke = break_check s1;
          winner = (if is_break s1 then None else victory_check s1);
          fouled = foul_check s1;
          foul = (if is_break s1 then fst broke else fst fouled);
          force_redo = (if is_break s1 then snd broke else False);
          foul_reasons = (if is_break s1 then None else Some (snd fouled));
          removed = remove_pocketed_balls s1;
          s2 = (snd removed)\<lparr>checked := True\<rparr>
      in apply_rules rack stop_open foul foul_reasons force_redo winner (fst removed) s2)"

section \<open>The sender of a connection (client.Connection, server.Connection)\<close>

text \<open>
  A message is a dictionary with a command and, possibly, arguments; \<^verbatim>\<open>json.dumps\<close> is a
  parameter \<open>dumps\<close> of the sender. A queue is the list of its items (\<^verbatim>\<open>clear\<close> empties the
  list). \<open>wire\<close> collects the chunks handed to \<^verbatim>\<open>socket.send\<close>, which is taken to accept
  every write; a write that raises \<^verbatim>\<open>ConnectionResetError\<close> ends in the same
  \<^verbatim>\<open>__apply_error\<close>.
\<close>

record message =
  command :: string
  args :: "string list option"

record connection =
  in_use :: bool
  waiting :: bool
  send_queue :: "message list"
  receive_queue :: "message list"
  wire :: "string list"

record client_connection = connection +
  conn_error :: "string option"

record server_connection = connection +
  in_lobby :: bool
  can_delete :: bool

definition client_apply_error :: "string \<Rightarrow> client_connection \<Rightarrow> client_connection" where
  "client_apply_error err c =
     c\<lparr>in_use := False, waiting := False, send_queue := [], receive_queue := [],
       conn_error := Some err\<rparr>"

definition server_apply_error :: "server_connection \<Rightarrow> server_connection" where
  "server_apply_error c =
     c\<lparr>in_use := False, waiting := False, send_queue := [], can_delete := (\<not> in_lobby c)\<rparr>"

text \<open>
  \<^verbatim>\<open>for i in range(0, len(data) - 1, 1024): send(data[i:i+1024])\<close>: one chunk for every
  multiple of 1024 below \<^verbatim>\<open>len(data) - 1\<close>.
\<close>

definition chunks :: "string \<Rightarrow> string list" where
  "chunks s = map (\<lambda>k. take 1024 (drop (k * 1024) s)) [0 ..< (length s - 1 + 1023) div 1024]"

definition client_ignore_received :: "string list" where
  "client_ignore_received = [''received'', ''update_server_cue_position'', ''update_cue_position'']"

definition server_ignore_received :: "string list" where
  "server_ignore_received =
     [''received'', ''update_cue_position'', ''update_server_cue_position'', ''disconnect'']"

definition connection_lost :: string where
  "connection_lost =
     ''No longer receiving communication from server. The connection may have been lost. Please try again later.''"

text \<open>
  The loop \<^verbatim>\<open>while self.waiting\<close> of the sender. The flag is cleared by the receiver
  thread when an acknowledgment arrives; the list of Booleans tells, for each test of
  the loop condition in turn, whether that has happened since the test before. When the
  list is used up while the flag is still set, the loop has not ended: \<open>None\<close>.
  \<^verbatim>\<open>prev_data\<close> is \<^verbatim>\<open>None\<close> until a significant message has been sent, and taking its
  length then raises.
\<close>

fun client_wait ::
  "bool list \<Rightarrow> real \<Rightarrow> nat \<Rightarrow> string option \<Rightarrow> client_connection \<Rightarrow>
   (py_error + client_connection) option" where
  "client_wait [] time_elapsed times_resent prev_data c =
     (if waiting c then None else Some (Inr c))"
| "client_wait (ack # acks) time_elapsed times_resent prev_data c =
     (let c1 = (if ack then c\<lparr>waiting := False\<rparr> else c)
      in if waiting c1
         then (let time_elapsed1 = time_elapsed + 0.05
               in if time_elapsed1 > 3
                  then (if times_resent = 3
                        then Some (Inr (client_apply_error connection_lost c1))
                        else (case prev_data of
                                None \<Rightarrow> Some (Inl TypeError)
                              | Some p \<Rightarrow>
                                  client_wait acks (time_elapsed1 - 5) (times_resent + 1) prev_data
                                    (c1\<lparr>wire := wire c1 @ chunks p\<rparr>)))
                  else client_wait acks time_elapsed1 times_resent prev_data c1)
         else Some (Inr c1))"

text \<open>
  The rest of one round of the client's \<^verbatim>\<open>__send_data\<close> for a message taken from the
  queue: after the wait (also after the \<^verbatim>\<open>break\<close> that follows \<^verbatim>\<open>__apply_error\<close>) the
  message is serialised and written, and a significant one sets \<^verbatim>\<open>waiting\<close>. The result
  carries the new \<^verbatim>\<open>prev_data\<close>.
\<close>

definition client_send_one ::
  "(message \<Rightarrow> string) \<Rightarrow> bool list \<Rightarrow> message \<Rightarrow> string option \<Rightarrow> client_connection \<Rightarrow>
   (py_error + string option \<times> client_connection) option" where
  "client_send_one dumps acks data prev_data c =
     (case client_wait acks 0 0 prev_data c of
        None \<Rightarrow> None
      | Some (Inl e) \<Rightarrow> Some (Inl e)
      | Some (Inr c1) \<Rightarrow>
          (let jsondata = dumps data @ ''#'';
               significant = (command data \<notin> set client_ignore_received);
               c2 = (if significant then c1\<lparr>waiting := True\<rparr> else c1)
           in Some (Inr (if significant then Some jsondata else prev_data,
                         c2\<lparr>wire := wire c2 @ chunks jsondata\<rparr>))))"

text \<open>
  The server's loop waits 5 seconds where the client waits 3, and leaves the method
  (\<^verbatim>\<open>return\<close>) after \<^verbatim>\<open>__apply_error\<close>: the Boolean of the result tells whether it did.
\<close>

fun server_wait ::
  "bool list \<Rightarrow> real \<Rightarrow> nat \<Rightarrow> string option \<Rightarrow> server_connection \<Rightarrow>
   (py_error + server_connection \<times> bool) option" where
  "server_wait [] time_elapsed times_resent prev_data c =
     (if waiting c then None else Some (Inr (c, False)))"
| "server_wait (ack # acks) time_elapsed times_resent prev_data c =
     (let c1 = (if ack then c\<lparr>waiting := False\<rparr> else c)
      in if waiting c1
         then (let time_elapsed1 = time_elapsed + 0.05
               in if time_elapsed1 > 5
                  then (if times_resent = 3
                        then Some (Inr (server_apply_error c1, True))
                        else (case prev_data of
                                None \<Rightarrow> Some (Inl TypeError)
                              | Some p \<Rightarrow>
                                  server_wait acks (time_elapsed1 - 5) (times_resent + 1) prev_data
                                    (c1\<lparr>wire := wire c1 @ chunks p\<rparr>)))
                  else server_wait acks time_elapsed1 times_resent prev_data c1)
         else Some (Inr (c1, False)))"

definition server_send_one ::
  "(message \<Rightarrow> string) \<Rightarrow> bool list \<Rightarrow> message \<Rightarrow> string option \<Rightarrow> server_connection \<Rightarrow>
   (py_error + string option \<times> server_connection) option" where
  "server_send_one dumps acks data prev_data c =
     (case server_wait acks 0 0 prev_data c of
        None \<Rightarrow> None
      | Some (Inl e) \<Rightarrow> Some (Inl e)
      | Some (Inr (c1, returned)) \<Rightarrow>
          if returned then Some (Inr (prev_data, c1))
          else (let jsondata = dumps data @ ''#'';
                    significant = (command data \<notin> set server_ignore_received);
                    c2 = (if significant then c1\<lparr>waiting := True\<rparr> else c1)
                in Some (Inr (if significant then Some jsondata else prev_data,
                              c2\<lparr>wire := wire c2 @ chunks jsondata\<rparr>))))"

section \<open>Vocabulary of the claims\<close>

text \<open>The entries of a list of balls other than the cue ball of the table.\<close>

definition non_cue :: "table \<Rightarrow> ref list \<Rightarrow> ref list" where
  "non_cue t bs = filter (\<lambda>b. Some b \<noteq> cue_ball t) bs"

definition cue_count :: "table \<Rightarrow> ref list \<Rightarrow> nat" where
  "cue_count t bs = length (filter (\<lambda>b. Some b = cue_ball t) bs)"

text \<open>A ball that does not move and carries no impulse.\<close>

definition at_rest :: "ball \<Rightarrow> bool" where
  "at_rest b = (\<not> moving b \<and> applied_force b = None)"

subsection \<open>Rule checks\<close>

definition eight_pocketed :: "table \<Rightarrow> bool" where
  "eight_pocketed t = (eight_ball t \<in> Some ` set (pocketed t))"

definition cue_pocketed :: "table \<Rightarrow> bool" where
  "cue_pocketed t = (cue_ball t \<in> Some ` set (pocketed t))"

definition first_pocketed_is_eight :: "table \<Rightarrow> bool" where
  "first_pocketed_is_eight t =
     (case pocketed t of [] \<Rightarrow> False | b # _ \<Rightarrow> Some b = eight_ball t)"

definition opponent_balls :: "lobby \<Rightarrow> ref list" where
  "opponent_balls s = (if player_turn s = 1 then p2_balls s else p1_balls s)"

text \<open>A ball that is neither the 8-ball nor the cue ball.\<close>

definition coloured :: "table \<Rightarrow> ref \<Rightarrow> bool" where
  "coloured t b = (Some b \<noteq> eight_ball t \<and> Some b \<noteq> cue_ball t)"

text \<open>
  The first struck ball is not one of the shooter's remaining balls on a closed table,
  the case of reaching the 8-ball with an empty group apart.
\<close>

definition wrong_first_hit :: "lobby \<Rightarrow> bool" where
  "wrong_first_hit s =
     (case hit (lobby_table s) of
        [] \<Rightarrow> False
      | h # _ \<Rightarrow> \<not> is_open s \<and> h \<notin> set (player_balls s) \<and>
                 \<not> (Some h = eight_ball (lobby_table s) \<and> player_balls s = []))"

text \<open>
  The victory rule in the words of the specification: the shooter loses when the 8-ball
  was the first item of the pocketed list, when the table was open, or when balls of the
  shooter's group remain.
\<close>

definition victor_as_specified :: "lobby \<Rightarrow> int option" where
  "victor_as_specified s =
     (if eight_pocketed (lobby_table s)
      then (if first_pocketed_is_eight (lobby_table s) \<or> is_open s \<or> player_balls s \<noteq> []
            then Some (other_turn s) else Some (player_turn s))
      else None)"

text \<open>
  The foul rule in the words of the specification: its last case is that the only
  pocketed ball is the cue ball.
\<close>

definition foul_as_specified :: "lobby \<Rightarrow> bool" where
  "foul_as_specified s =
     (let t = lobby_table s in
      hit t = [] \<or> wrong_first_hit s \<or> (pocketed t = [] \<and> rail_contacts t = []) \<or>
      (length (pocketed t) = 1 \<and> cue_pocketed t))"

text \<open>
  What an evaluation that leads from \<open>s\<close> to \<open>s'\<close> has sent: the forced redo is announced
  to everybody, the choice of a redo is offered to the player who did not shoot.
\<close>

definition sent :: "lobby \<Rightarrow> lobby \<Rightarrow> (recipient \<times> lobby_command) list" where
  "sent s s' = drop (length (outbox s)) (outbox s')"

definition redo_forced :: "lobby \<Rightarrow> lobby \<Rightarrow> bool" where
  "redo_forced s s' = ((All_players, Force_redo_message) \<in> set (sent s s'))"

definition redo_offered :: "lobby \<Rightarrow> lobby \<Rightarrow> bool" where
  "redo_offered s s' = ((Player (other_turn s), Redo_choice) \<in> set (sent s s'))"

subsection \<open>Collisions of balls\<close>



section \<open>Example states\<close>

definition rest_settings :: settings where
  "rest_settings =
     \<lparr>ball_radius = 1, ball_mass = 1, gravity = 10, air_density = 0,
      ball_coeff_of_drag = 0, coeff_of_static_friction = 1, coeff_of_rolling_friction = 0,
      limiting_vel = 0, table_coeff_of_rest = 1, ball_coeff_of_rest = 1\<rparr>"

definition origin :: vector2d where
  "origin = \<lparr>xcomp = 0, ycomp = 0\<rparr>"

text \<open>A ball at rest at the origin, of radius 1 and mass 1.\<close>

definition rest_ball :: "bool \<Rightarrow> ball" where
  "rest_ball s =
     \<lparr>number = None, striped = s, pos = origin, new_pos = origin, old_pos = origin,
      ball_rad = 1, mass = 1, normal_contact = - 10, vel = origin,
      applied_force = None, air_res_coeff = 0, colliding = False, hit_rail = False,
      can_collide = True, attempted_force_application = False,
      ball_settings = rest_settings\<rparr>"

text \<open>
  A table whose cue ball is reference 0 and whose 8-ball is reference 8; the balls 9 to
  15 are striped. The accumulators are given.
\<close>

definition rules_table :: "ref list \<Rightarrow> ref list \<Rightarrow> ref list \<Rightarrow> table" where
  "rules_table h p r =
     \<lparr>heap = (\<lambda>b. rest_ball (9 \<le> b)), table_pos = origin, upper_pos = origin,
      balls = [], rails = [], pockets = [],
      in_motion = False, previously_in_motion = True, holding = None,
      eight_ball = Some 8, cue_ball = Some 0, hit = h, pocketed = p, rail_contacts = r\<rparr>"

text \<open>
  A closed table, player 1 (spotted, with the balls of the list given left) to shoot; a
  shot has been made and waits for its evaluation.
\<close>

definition closed_lobby :: "ref list \<Rightarrow> table \<Rightarrow> lobby" where
  "closed_lobby mine t =
     \<lparr>lobby_table = t, is_break = False, is_open = False, player_turn = 1,
      own_p1 = [], own_p2 = [], striped_balls = [9, 10, 11], spotted_balls = mine,
      p1_balls_at = Spotted_group, p2_balls_at = Striped_group,
      p1_is_striped = Some False, starting_player = 1, check_state = True,
      can_shoot = False, can_pass_turn = False, checked = False, finished = False,
      victor = None, outbox = []\<rparr>"

text \<open>An open table after the break, player 2 to shoot, nothing assigned yet.\<close>

definition open_lobby :: "table \<Rightarrow> lobby" where
  "open_lobby t =
     \<lparr>lobby_table = t, is_break = False, is_open = True, player_turn = 2,
      own_p1 = [], own_p2 = [], striped_balls = [9, 10, 11], spotted_balls = [1, 2, 3],
      p1_balls_at = Own_p1, p2_balls_at = Own_p2,
      p1_is_striped = None, starting_player = 1, check_state = True,
      can_shoot = False, can_pass_turn = False, checked = False, finished = False,
      victor = None, outbox = []\<rparr>"

text \<open>The same table at the break, which player 1 has just shot.\<close>

definition break_lobby :: "table \<Rightarrow> lobby" where
  "break_lobby t = (open_lobby t)\<lparr>is_break := True, player_turn := 1\<rparr>"

text \<open>A ball of radius 1 at the origin that moves with velocity (1, 0).\<close>

definition moving_ball :: ball where
  "moving_ball = (rest_ball False)\<lparr>vel := \<lparr>xcomp = 1, ycomp = 0\<rparr>\<rparr>"

text \<open>
  A table with one pocket of radius 1 around the origin; every ball moves and lies in
  the pocket, the cue ball is reference 0.
\<close>

definition pocket_table :: "ref list \<Rightarrow> table" where
  "pocket_table bs =
     \<lparr>heap = (\<lambda>b. moving_ball), table_pos = origin, upper_pos = origin,
      balls = bs, rails = [], pockets = [\<lparr>centre = origin, radius = 1\<rparr>],
      in_motion = True, previously_in_motion = True, holding = None,
      eight_ball = Some 8, cue_ball = Some 0, hit = [], pocketed = [], rail_contacts = []\<rparr>"

text \<open>
  A table at rest on which the cue ball (reference 0, as its constructor makes it) has
  just been struck with the force given, for one second at angle 0; ball 1 lies beside.
\<close>

definition struck_table :: "real \<Rightarrow> table" where
  "struck_table force =
     \<lparr>heap = (\<lambda>b. if b = 0 then apply_force 1 force 0 (ball_init origin rest_settings False None)
                   else rest_ball False),
      table_pos = origin, upper_pos = \<lparr>xcomp = 10, ycomp = 5\<rparr>,
      balls = [0, 1], rails = [], pockets = [\<lparr>centre = origin, radius = 1\<rparr>],
      in_motion = False, previously_in_motion = False, holding = None,
      eight_ball = None, cue_ball = Some 0, hit = [], pocketed = [], rail_contacts = []\<rparr>"

text \<open>
  Two connections in use that wait for an acknowledgment, each with one message still
  to send and one received request not yet processed.
\<close>

definition busy_client :: client_connection where
  "busy_client =
     \<lparr>in_use = True, waiting = True,
      send_queue = [\<lparr>command = ''ready'', args = None\<rparr>],
      receive_queue = [\<lparr>command = ''start_next_turn'', args = None\<rparr>],
      wire = [], conn_error = None\<rparr>"

definition busy_server :: server_connection where
  "busy_server =
     \<lparr>in_use = True, waiting = True,
      send_queue = [\<lparr>command = ''start_next_turn'', args = None\<rparr>],
      receive_queue = [\<lparr>command = ''pass_turn'', args = None\<rparr>],
      wire = [], in_lobby = True, can_delete = False\<rparr>"






section \<open>Vector comparisons always raise\<close>

lemma getattr_sqared: "vector2d_getattr ''magnitude_sqared'' v = Inl AttributeError"
  by (simp add: vector2d_getattr_def)

lemma getattr_squared: "vector2d_getattr ''magnitude_squared'' v = Inr (magnitude_squared v)"
  by (simp add: vector2d_getattr_def)

lemma compare_attrs_raises:
  "compare_attrs rel ''magnitude_squared'' ''magnitude_sqared'' v (PyVector w) = Inl AttributeError"
  by (simp add: compare_attrs_def getattr_sqared getattr_squared)

lemma compare_attrs_never_returns:
  "isl (compare_attrs rel ''magnitude_squared'' ''magnitude_sqared'' v obj)"
  by (cases obj) (simp_all add: compare_attrs_def getattr_sqared getattr_squared)

text \<open>
  C10. For every pair of vectors each of the four magnitude comparisons ends in an
  \<^verbatim>\<open>AttributeError\<close> (the right operand has no attribute \<^verbatim>\<open>magnitude_sqared\<close>), while
  \<^verbatim>\<open>==\<close> and \<^verbatim>\<open>!=\<close> return the component-wise Boolean; whatever the right operand is, no
  magnitude comparison returns a value.
\<close>

theorem vector2d_order_comparisons_raise:
  "vector2d_lt v (PyVector w) = Inl AttributeError \<and>
   vector2d_le v (PyVector w) = Inl AttributeError \<and>
   vector2d_ge v (PyVector w) = Inl AttributeError \<and>
   vector2d_gt v (PyVector w) = Inl AttributeError \<and>
   vector2d_eq v (PyVector w) = Inr (v = w) \<and>
   vector2d_ne v (PyVector w) = Inr (v \<noteq> w) \<and>
   isl (vector2d_lt v obj) \<and> isl (vector2d_le v obj) \<and>
   isl (vector2d_ge v obj) \<and> isl (vector2d_gt v obj)"
proof -
  have eq: "(xcomp v = xcomp w \<and> ycomp v = ycomp w) = (v = w)"
    by (cases v, cases w) simp
  show ?thesis
    unfolding vector2d_lt_def vector2d_le_def vector2d_ge_def vector2d_gt_def
    using eq
    by (auto simp add: compare_attrs_raises compare_attrs_never_returns
        vector2d_eq_def vector2d_ne_def)
qed

theorem vector2d_order_comparisons_witness:
  "vector2d_lt \<lparr>xcomp = 1, ycomp = 0\<rparr> (PyVector \<lparr>xcomp = 3, ycomp = 4\<rparr>) = Inl AttributeError \<and>
   vector2d_gt \<lparr>xcomp = 1, ycomp = 0\<rparr> (PyVector \<lparr>xcomp = 3, ycomp = 4\<rparr>) = Inl AttributeError \<and>
   vector2d_eq \<lparr>xcomp = 1, ycomp = 0\<rparr> (PyVector \<lparr>xcomp = 3, ycomp = 4\<rparr>) = Inr False \<and>
   vector2d_ne \<lparr>xcomp = 1, ycomp = 0\<rparr> (PyVector \<lparr>xcomp = 3, ycomp = 4\<rparr>) = Inr True"
  using vector2d_order_comparisons_raise
    [of "\<lparr>xcomp = 1, ycomp = 0\<rparr>" "\<lparr>xcomp = 3, ycomp = 4\<rparr>" PyOther]
  by simp

section \<open>What the checks and the removal of pocketed balls leave alone\<close>

lemma set_list_at_frame:
  "lobby_table (set_list_at l xs s) = lobby_table s \<and>
   is_break (set_list_at l xs s) = is_break s \<and>
   is_open (set_list_at l xs s) = is_open s \<and>
   player_turn (set_list_at l xs s) = player_turn s \<and>
   outbox (set_list_at l xs s) = outbox s"
  by (cases l) (simp_all add: set_list_at_def)

lemma remove_pocketed_loop_frame:
  "lobby_table (snd (remove_pocketed_loop bs (c, s))) = lobby_table s \<and>
   is_break (snd (remove_pocketed_loop bs (c, s))) = is_break s \<and>
   is_open (snd (remove_pocketed_loop bs (c, s))) = is_open s \<and>
   player_turn (snd (remove_pocketed_loop bs (c, s))) = player_turn s \<and>
   outbox (snd (remove_pocketed_loop bs (c, s))) = outbox s"
  by (induction bs arbitrary: c s) (simp_all add: set_list_at_frame)

lemma remove_pocketed_balls_frame:
  "lobby_table (snd (remove_pocketed_balls s)) = lobby_table s \<and>
   is_break (snd (remove_pocketed_balls s)) = is_break s \<and>
   is_open (snd (remove_pocketed_balls s)) = is_open s \<and>
   player_turn (snd (remove_pocketed_balls s)) = player_turn s \<and>
   outbox (snd (remove_pocketed_balls s)) = outbox s"
  using remove_pocketed_loop_frame [of "pocketed (lobby_table s)" False s]
  by (simp add: remove_pocketed_balls_def Let_def)

lemma victory_loop_char:
  "victory_loop n bs s =
     (if eight_ball (lobby_table s) \<in> Some ` set bs
      then (if n \<noteq> 0 \<or> (case bs of [] \<Rightarrow> False | b # _ \<Rightarrow> Some b \<noteq> eight_ball (lobby_table s))
               \<or> is_open s \<or> player_balls s \<noteq> []
            then Some (other_turn s) else Some (player_turn s))
      else None)"
proof (induction bs arbitrary: n)
  case Nil
  show ?case by simp
next
  case (Cons b bs)
  show ?case
  proof (cases "Some b = eight_ball (lobby_table s)")
    case True
    then show ?thesis by auto
  next
    case False
    then show ?thesis
      using Cons.IH [of "n + 1"] by (auto split: list.splits)
  qed
qed

lemma break_loop_char:
  "break_loop t bs (f, r) =
     (f \<or> eight_ball t \<in> Some ` set bs \<or> cue_ball t \<in> Some ` set bs,
      r \<or> eight_ball t \<in> Some ` set bs)"
  by (induction bs arbitrary: f r) auto

lemma open_table_loop_char:
  "open_table_loop bs s =
     (case find (coloured (lobby_table s)) bs of
        None \<Rightarrow> (False, s)
      | Some b \<Rightarrow>
          (True, close_table ((striped (heap (lobby_table s) b) \<and> player_turn s = 1) \<or>
                              (\<not> striped (heap (lobby_table s) b) \<and> player_turn s = 2)) s))"
  by (induction bs) (auto simp add: coloured_def)

lemma open_table_check_frame:
  "lobby_table (snd (open_table_check s)) = lobby_table s \<and>
   is_break (snd (open_table_check s)) = is_break s \<and>
   is_open (snd (open_table_check s)) = is_open s \<and>
   player_turn (snd (open_table_check s)) = player_turn s \<and>
   outbox (snd (open_table_check s)) = outbox s"
  by (simp add: open_table_check_def open_table_loop_char close_table_def split: option.splits)

lemma open_table_check_signal:
  "fst (open_table_check s) =
     (\<not> first_hit_is_eight (lobby_table s) \<and>
      find (coloured (lobby_table s)) (pocketed (lobby_table s)) \<noteq> None)"
  by (simp add: open_table_check_def open_table_loop_char split: option.splits)

lemma set_list_at_rest:
  "finished (set_list_at l xs s) = finished s \<and> victor (set_list_at l xs s) = victor s"
  by (cases l) (simp_all add: set_list_at_def)

lemma remove_pocketed_loop_rest:
  "finished (snd (remove_pocketed_loop bs (c, s))) = finished s \<and>
   victor (snd (remove_pocketed_loop bs (c, s))) = victor s"
  by (induction bs arbitrary: c s) (simp_all add: set_list_at_rest)

lemma remove_pocketed_balls_rest:
  "finished (snd (remove_pocketed_balls s)) = finished s \<and>
   victor (snd (remove_pocketed_balls s)) = victor s"
  using remove_pocketed_loop_rest [of "pocketed (lobby_table s)" False s]
  by (simp add: remove_pocketed_balls_def Let_def)

lemma open_table_check_rest:
  "finished (snd (open_table_check s)) = finished s \<and>
   victor (snd (open_table_check s)) = victor s"
  by (simp add: open_table_check_def open_table_loop_char close_table_def split: option.splits)

text \<open>The state on which the rules are applied, as far as the rules read it.\<close>

lemma settled_frame:
  "lobby_table (snd (remove_pocketed_balls (snd (if is_open s then open_table_check s else (False, s))))) = lobby_table s \<and>
   is_break (snd (remove_pocketed_balls (snd (if is_open s then open_table_check s else (False, s))))) = is_break s \<and>
   is_open (snd (remove_pocketed_balls (snd (if is_open s then open_table_check s else (False, s))))) = is_open s \<and>
   player_turn (snd (remove_pocketed_balls (snd (if is_open s then open_table_check s else (False, s))))) = player_turn s \<and>
   outbox (snd (remove_pocketed_balls (snd (if is_open s then open_table_check s else (False, s))))) = outbox s"
  by (simp add: remove_pocketed_balls_frame open_table_check_frame)

lemma break_check_table: "lobby_table s' = lobby_table s \<Longrightarrow> break_check s' = break_check s"
  by (simp add: break_check_def)

lemma break_check_flags:
  "break_check s =
     ((pocketed (lobby_table s) = [] \<and> length (rail_contacts (lobby_table s)) < 4) \<or>
        eight_pocketed (lobby_table s) \<or> cue_pocketed (lobby_table s),
      eight_pocketed (lobby_table s))"
  by (auto simp add: break_check_def Let_def break_loop_char eight_pocketed_def cue_pocketed_def)

section \<open>The victory check\<close>

text \<open>
  C1, as the code has it. Whenever the victory check runs: if the 8-ball is in the
  pocketed list, the opponent is declared winner when the 8-ball was \<^emph>\<open>not\<close> the first
  item of the list, or the table is open, or the shooter's list is not empty, and the
  shooter is declared winner otherwise; if the 8-ball is not in the list nobody is.
  The evaluation of a shot outside the break ends the game with the winner that the
  check names on the state before the shot was evaluated, and leaves the game running
  when the check names none (it fails only then, for a table without a cue ball).
\<close>

theorem victory_check_char:
  "victory_check s =
     (if eight_pocketed (lobby_table s)
      then (if \<not> first_pocketed_is_eight (lobby_table s) \<or> is_open s \<or> player_balls s \<noteq> []
            then Some (other_turn s) else Some (player_turn s))
      else None) \<and>
   (\<not> is_break s \<longrightarrow>
    (case check_game_state rack s of
       Inl e \<Rightarrow> \<not> eight_pocketed (lobby_table s)
     | Inr s' \<Rightarrow>
         if eight_pocketed (lobby_table s)
         then finished s' \<and> victor s' = victory_check s
         else finished s' = finished s \<and> victor s' = victor s))"
proof -
  let ?t = "lobby_table s"
  let ?s1 = "snd (if is_open s then open_table_check s else (False, s))"
  let ?s2 = "(snd (remove_pocketed_balls ?s1))\<lparr>checked := True\<rparr>"
  have check: "victory_check s =
     (if eight_pocketed ?t
      then (if \<not> first_pocketed_is_eight ?t \<or> is_open s \<or> player_balls s \<noteq> []
            then Some (other_turn s) else Some (player_turn s))
      else None)"
    unfolding victory_check_def eight_pocketed_def first_pocketed_is_eight_def
    by (simp add: victory_loop_char split: list.splits)
  have evaluation: "case check_game_state rack s of
       Inl e \<Rightarrow> \<not> eight_pocketed ?t
     | Inr s' \<Rightarrow>
         if eight_pocketed ?t
         then finished s' \<and> victor s' = victory_check s
         else finished s' = finished s \<and> victor s' = victor s"
    if nobreak: "\<not> is_break s"
  proof -
    have s1: "lobby_table ?s1 = ?t" "is_break ?s1 = is_break s" "is_open ?s1 = is_open s"
      "player_turn ?s1 = player_turn s" "\<not> is_open s \<Longrightarrow> ?s1 = s"
      by (simp_all add: open_table_check_frame)
    have same: "victory_check ?s1 = victory_check s"
    proof (cases "is_open s")
      case True
      then show ?thesis
        using s1 by (simp add: victory_check_def victory_loop_char other_turn_def)
    next
      case False
      then show ?thesis by simp
    qed
    have s2: "is_break ?s2 = is_break s" "finished ?s2 = finished ?s1" "victor ?s2 = victor ?s1"
      using settled_frame [of s] remove_pocketed_balls_rest [of ?s1] by simp_all
    have s1': "finished ?s1 = finished s" "victor ?s1 = victor s"
      by (simp_all add: open_table_check_rest)
    have run: "check_game_state rack s =
        apply_rules rack (fst (if is_open s then open_table_check s else (False, s)))
          (fst (foul_check ?s1)) (Some (snd (foul_check ?s1))) False (victory_check s)
          (fst (remove_pocketed_balls ?s1)) ?s2"
      using nobreak s1(2) same by (simp add: check_game_state_def Let_def)
    show ?thesis
    proof (cases "eight_pocketed ?t")
      case True
      then obtain v where "victory_check s = Some v"
        using check by (cases "victory_check s") (simp_all split: if_splits)
      then show ?thesis
        using True nobreak run s2
        by (simp add: apply_rules_def end_game_def send_players_def)
    next
      case False
      then have "victory_check s = None" using check by simp
      then show ?thesis
        using False nobreak run s2 s1'
        by (auto simp add: apply_rules_def apply_foul_penalty_def finish_turn_def
            send_players_def Let_def split: option.splits sum.splits)
    qed
  qed
  show ?thesis using check evaluation by blast
qed

theorem victory_check_witness:
  "victory_check (closed_lobby [3] (rules_table [3] [8] [])) = Some 2 \<and>
   victory_check (closed_lobby [] (rules_table [8] [8] [])) = Some 1 \<and>
   victory_check (closed_lobby [] (rules_table [3] [3, 8] [])) = Some 2 \<and>
   victory_check (open_lobby (rules_table [3] [8] [])) = Some 1 \<and>
   victory_check (closed_lobby [] (rules_table [3] [3] [])) = None \<and>
   (case check_game_state (rules_table [] [] [], [], []) (closed_lobby [] (rules_table [8] [8] [])) of
      Inl e \<Rightarrow> False | Inr s' \<Rightarrow> finished s' \<and> victor s' = Some 1)"
proof -
  have nobreak: "\<not> is_break (closed_lobby mine t)" for mine t
    by (simp add: closed_lobby_def)
  show ?thesis
    using victory_check_char [of "closed_lobby [3] (rules_table [3] [8] [])"]
      victory_check_char [of "closed_lobby [] (rules_table [8] [8] [])" "(rules_table [] [] [], [], [])"]
      victory_check_char [of "closed_lobby [] (rules_table [3] [3, 8] [])"]
      victory_check_char [of "open_lobby (rules_table [3] [8] [])"]
      victory_check_char [of "closed_lobby [] (rules_table [3] [3] [])"]
    by (simp add: closed_lobby_def open_lobby_def rules_table_def eight_pocketed_def
        first_pocketed_is_eight_def player_balls_def p1_balls_def p2_balls_def list_at_def
        other_turn_def split: sum.splits)
qed

text \<open>
  The claim as worded fails where the 8-ball is the only ball pocketed, on a closed
  table, by a shooter whose group is cleared: the code declares the shooter (player 1)
  winner, the wording declares the opponent.
\<close>

theorem victory_first_item_counterexample:
  "victory_check (closed_lobby [] (rules_table [8] [8] [])) = Some 1 \<and>
   victor_as_specified (closed_lobby [] (rules_table [8] [8] [])) = Some 2"
  by (simp add: victory_check_def victor_as_specified_def closed_lobby_def rules_table_def
      eight_pocketed_def first_pocketed_is_eight_def player_balls_def p1_balls_def
      p2_balls_def list_at_def other_turn_def)

section \<open>The break check\<close>

text \<open>
  C2. The break check reports a foul exactly when nothing was pocketed and fewer than
  four balls are in the rail-contact accumulator (which holds each numbered ball at most
  once), or the 8-ball was pocketed, or the cue ball was pocketed, and it sets the forced
  redo exactly when the 8-ball was pocketed. The evaluation of a break shot by player 1
  or 2 always goes through, and it announces the forced redo exactly when the 8-ball
  was pocketed: the game then restarts on a new rack, at the break, with the other
  player to shoot. The choice of a redo is offered to the other player exactly when
  the break was fouled without the 8-ball pocketed.
\<close>

theorem break_check_char:
  "break_check s =
     ((pocketed (lobby_table s) = [] \<and> length (rail_contacts (lobby_table s)) < 4) \<or>
        eight_pocketed (lobby_table s) \<or> cue_pocketed (lobby_table s),
      eight_pocketed (lobby_table s)) \<and>
   (is_break s \<and> (player_turn s = 1 \<or> player_turn s = 2) \<longrightarrow>
    (case check_game_state rack s of
       Inl e \<Rightarrow> False
     | Inr s' \<Rightarrow>
         redo_forced s s' = eight_pocketed (lobby_table s) \<and>
         (eight_pocketed (lobby_table s) \<longrightarrow>
            lobby_table s' = fst rack \<and> is_break s' \<and> is_open s' \<and>
            player_turn s' = other_turn s \<and> can_shoot s') \<and>
         redo_offered s s' = (fst (break_check s) \<and> \<not> eight_pocketed (lobby_table s))))"
proof -
  let ?s1 = "snd (if is_open s then open_table_check s else (False, s))"
  let ?s2 = "(snd (remove_pocketed_balls ?s1))\<lparr>checked := True\<rparr>"
  have flags: "break_check s =
     ((pocketed (lobby_table s) = [] \<and> length (rail_contacts (lobby_table s)) < 4) \<or>
        eight_pocketed (lobby_table s) \<or> cue_pocketed (lobby_table s),
      eight_pocketed (lobby_table s))"
    by (rule break_check_flags)
  have s1: "lobby_table ?s1 = lobby_table s" "is_break ?s1 = is_break s"
    by (simp_all add: open_table_check_frame)
  have s2: "lobby_table ?s2 = lobby_table s" "is_break ?s2 = is_break s"
    "player_turn ?s2 = player_turn s" "outbox ?s2 = outbox s"
    using settled_frame [of s] by simp_all
  have evaluation: "case check_game_state rack s of
       Inl e \<Rightarrow> False
     | Inr s' \<Rightarrow>
         redo_forced s s' = eight_pocketed (lobby_table s) \<and>
         (eight_pocketed (lobby_table s) \<longrightarrow>
            lobby_table s' = fst rack \<and> is_break s' \<and> is_open s' \<and>
            player_turn s' = other_turn s \<and> can_shoot s') \<and>
         redo_offered s s' = (fst (break_check s) \<and> \<not> eight_pocketed (lobby_table s))"
    if break: "is_break s" and turn: "player_turn s = 1 \<or> player_turn s = 2"
  proof -
    have run: "check_game_state rack s =
        apply_rules rack (fst (if is_open s then open_table_check s else (False, s)))
          (fst (break_check s)) None (snd (break_check s)) None
          (fst (remove_pocketed_balls ?s1)) ?s2"
      using break s1 break_check_table [of ?s1 s]
      by (simp add: check_game_state_def Let_def)
    show ?thesis
    proof (cases "eight_pocketed (lobby_table s)")
      case True
      then have "check_game_state rack s = Inr (redo True rack (send_players Force_redo_message ?s2))"
        using run break s2(2) by (simp add: flags apply_rules_def)
      then show ?thesis
        using True s2
        by (simp add: redo_def create_game_def reset_state_def send_players_def other_turn_def
            redo_forced_def redo_offered_def sent_def Let_def)
    next
      case False
      show ?thesis
      proof (cases "fst (break_check s)")
        case True
        then show ?thesis
          using False run break turn s2
          by (auto simp add: flags apply_rules_def finish_turn_def offer_redo_choice_def
              send_players_def other_turn_def redo_forced_def redo_offered_def sent_def Let_def)
      next
        case nofoul: False
        then show ?thesis
          using False run break turn s2
          by (auto simp add: flags apply_rules_def finish_turn_def send_players_def
              other_turn_def redo_forced_def redo_offered_def sent_def Let_def)
      qed
    qed
  qed
  show ?thesis using flags evaluation by blast
qed

theorem break_check_witness:
  "break_check (break_lobby (rules_table [3] [] [1, 2, 3])) = (True, False) \<and>
   break_check (break_lobby (rules_table [3] [] [1, 2, 3, 4])) = (False, False) \<and>
   break_check (break_lobby (rules_table [3] [5, 8] [1, 2, 3, 4])) = (True, True) \<and>
   break_check (break_lobby (rules_table [3] [5, 0] [])) = (True, False) \<and>
   (case check_game_state (rules_table [] [] [], [], []) (break_lobby (rules_table [3] [5, 8] [])) of
      Inl e \<Rightarrow> False
    | Inr s' \<Rightarrow> redo_forced (break_lobby (rules_table [3] [5, 8] [])) s' \<and> player_turn s' = 2 \<and>
        \<not> redo_offered (break_lobby (rules_table [3] [5, 8] [])) s') \<and>
   (case check_game_state (rules_table [] [] [], [], []) (break_lobby (rules_table [3] [5, 0] [])) of
      Inl e \<Rightarrow> False
    | Inr s' \<Rightarrow> \<not> redo_forced (break_lobby (rules_table [3] [5, 0] [])) s' \<and>
        redo_offered (break_lobby (rules_table [3] [5, 0] [])) s')"
proof -
  have state: "is_break (break_lobby t) \<and>
      (player_turn (break_lobby t) = 1 \<or> player_turn (break_lobby t) = 2)" for t
    by (simp add: break_lobby_def open_lobby_def)
  have table: "lobby_table (break_lobby t) = t" "other_turn (break_lobby t) = 2" for t
    by (simp_all add: break_lobby_def open_lobby_def other_turn_def)
  show ?thesis
    using break_check_char [of "break_lobby (rules_table [3] [] [1, 2, 3])"]
      break_check_char [of "break_lobby (rules_table [3] [] [1, 2, 3, 4])"]
      break_check_char [of "break_lobby (rules_table [3] [5, 8] [1, 2, 3, 4])"]
      break_check_char [of "break_lobby (rules_table [3] [5, 0] [])" "(rules_table [] [] [], [], [])"]
      break_check_char [of "break_lobby (rules_table [3] [5, 8] [])" "(rules_table [] [] [], [], [])"]
    by (simp add: state table rules_table_def eight_pocketed_def cue_pocketed_def
        split: sum.splits)
qed

section \<open>The foul check\<close>

lemma foul_first_hit_char: "(foul_first_hit s \<noteq> []) = wrong_first_hit s"
  by (auto simp add: foul_first_hit_def wrong_first_hit_def split: list.splits)

lemma foul_cue_loop_char: "(foul_cue_loop t bs \<noteq> []) = (cue_ball t \<in> Some ` set bs)"
  by (induction bs) auto

lemma offline_foul_cue_loop_char:
  "(offline_foul_cue_loop s bs \<noteq> []) =
     (cue_ball (lobby_table s) \<in> Some ` (set bs - set (player_balls s)))"
proof (induction bs)
  case Nil
  show ?case by simp
next
  case (Cons b bs)
  show ?case
  proof (cases "b \<notin> set (player_balls s) \<and> Some b = cue_ball (lobby_table s)")
    case True
    then have "cue_ball (lobby_table s) \<in> Some ` (set (b # bs) - set (player_balls s))"
      by (metis DiffI image_eqI list.set_intros(1))
    with True show ?thesis by simp
  next
    case False
    then have "(cue_ball (lobby_table s) \<in> Some ` (set (b # bs) - set (player_balls s))) =
               (cue_ball (lobby_table s) \<in> Some ` (set bs - set (player_balls s)))"
      by auto
    with False Cons.IH show ?thesis by auto
  qed
qed

lemma foul_no_pocket_char:
  "(foul_no_pocket t \<noteq> []) =
     ((pocketed t = [] \<and> rail_contacts t = []) \<or> (length (pocketed t) = 1 \<and> cue_pocketed t))"
proof (cases "pocketed t")
  case Nil
  then show ?thesis by (simp add: foul_no_pocket_def cue_pocketed_def)
next
  case (Cons b bs)
  then show ?thesis by (cases bs) (auto simp add: foul_no_pocket_def cue_pocketed_def)
qed

text \<open>
  C6, as the code has it. The foul check of the lobby reports a foul exactly when no
  ball was struck, or the table is closed and the first struck ball is not one of the
  shooter's remaining balls (striking the 8-ball first with an empty group apart), or
  nothing was pocketed and no rail contact was recorded, or the cue ball is among the
  pocketed balls, alone or not. The offline game's check agrees, its cue-ball case
  asking in addition that the cue ball is not in the shooter's list.
\<close>

theorem foul_check_char:
  "fst (foul_check s) =
     (hit (lobby_table s) = [] \<or> wrong_first_hit s \<or>
      (pocketed (lobby_table s) = [] \<and> rail_contacts (lobby_table s) = []) \<or>
      cue_pocketed (lobby_table s)) \<and>
   offline_foul_check s =
     (hit (lobby_table s) = [] \<or> wrong_first_hit s \<or>
      (pocketed (lobby_table s) = [] \<and> rail_contacts (lobby_table s) = []) \<or>
      (length (pocketed (lobby_table s)) = 1 \<and> cue_pocketed (lobby_table s)) \<or>
      cue_ball (lobby_table s) \<in> Some ` (set (pocketed (lobby_table s)) - set (player_balls s)))"
proof -
  have server: "fst (foul_check s) =
     (hit (lobby_table s) = [] \<or> wrong_first_hit s \<or>
      (pocketed (lobby_table s) = [] \<and> rail_contacts (lobby_table s) = []) \<or>
      cue_pocketed (lobby_table s))"
    using foul_first_hit_char [of s] foul_no_pocket_char [of "lobby_table s"]
      foul_cue_loop_char [of "lobby_table s" "pocketed (lobby_table s)"]
    by (auto simp add: foul_check_def Let_def cue_pocketed_def)
  have offline: "offline_foul_check s =
     (hit (lobby_table s) = [] \<or> wrong_first_hit s \<or>
      (pocketed (lobby_table s) = [] \<and> rail_contacts (lobby_table s) = []) \<or>
      (length (pocketed (lobby_table s)) = 1 \<and> cue_pocketed (lobby_table s)) \<or>
      cue_ball (lobby_table s) \<in> Some ` (set (pocketed (lobby_table s)) - set (player_balls s)))"
    using foul_first_hit_char [of s] foul_no_pocket_char [of "lobby_table s"]
      offline_foul_cue_loop_char [of s "pocketed (lobby_table s)"]
    by (simp add: offline_foul_check_def Let_def) blast
  show ?thesis using server offline by simp
qed

theorem foul_check_witness:
  "fst (foul_check (closed_lobby [3, 5] (rules_table [] [] []))) \<and>
   fst (foul_check (closed_lobby [3, 5] (rules_table [9] [5] [9]))) \<and>
   \<not> fst (foul_check (closed_lobby [] (rules_table [8] [] [8]))) \<and>
   \<not> fst (foul_check (closed_lobby [3, 5] (rules_table [3] [5] []))) \<and>
   \<not> offline_foul_check (closed_lobby [3, 5] (rules_table [3] [5] [])) \<and>
   offline_foul_check (closed_lobby [3, 5] (rules_table [3] [0] [3]))"
  using foul_check_char [of "closed_lobby [3, 5] (rules_table [] [] [])"]
    foul_check_char [of "closed_lobby [3, 5] (rules_table [9] [5] [9])"]
    foul_check_char [of "closed_lobby [] (rules_table [8] [] [8])"]
    foul_check_char [of "closed_lobby [3, 5] (rules_table [3] [5] [])"]
    foul_check_char [of "closed_lobby [3, 5] (rules_table [3] [0] [3])"]
  by (simp add: closed_lobby_def rules_table_def wrong_first_hit_def cue_pocketed_def
      player_balls_def p1_balls_def p2_balls_def list_at_def)

text \<open>
  The claim as worded fails where the cue ball is pocketed together with another ball:
  player 1 strikes the own ball 3 first and pockets ball 5 and the cue ball. The code
  reports a foul, none of the four cases of the wording holds.
\<close>

theorem foul_cue_with_other_counterexample:
  "fst (foul_check (closed_lobby [3, 5] (rules_table [3] [5, 0] []))) \<and>
   offline_foul_check (closed_lobby [3, 5] (rules_table [3] [5, 0] [])) \<and>
   \<not> foul_as_specified (closed_lobby [3, 5] (rules_table [3] [5, 0] []))"
  by (simp add: foul_check_def offline_foul_check_def foul_as_specified_def Let_def
      closed_lobby_def rules_table_def foul_first_hit_def foul_no_pocket_def
      wrong_first_hit_def cue_pocketed_def player_balls_def p1_balls_def p2_balls_def
      list_at_def)

section \<open>The open-table check\<close>

text \<open>
  C7. With player 1 or 2 to shoot, the open-table check leaves everything as it is and
  does not signal closure when the first ball struck was the 8-ball, or when no ball
  other than the 8-ball and the cue ball is in the pocketed list. Otherwise it signals
  closure and the first such ball of the list decides: the shooter's list becomes the
  group of that ball (the striped balls if it is striped, the spotted ones if not) and
  the opponent's list the other group. The check leaves the flag of the open table to
  the application of the rules: after the evaluation of a shot on an open table, the
  table is still open exactly when the check did not signal closure, or the 8-ball was
  pocketed with the shot, which ends the game or restarts it on a new rack. The
  evaluation fails only for a table without a cue ball.
\<close>

theorem open_table_check_char:
  assumes "player_turn s = 1 \<or> player_turn s = 2"
  shows "(let t = lobby_table s; r = open_table_check s in
          if first_hit_is_eight t then r = (False, s)
          else case find (coloured t) (pocketed t) of
                 None \<Rightarrow> r = (False, s)
               | Some b \<Rightarrow>
                   fst r \<and>
                   player_balls (snd r) = (if striped (heap t b) then striped_balls s else spotted_balls s) \<and>
                   opponent_balls (snd r) = (if striped (heap t b) then spotted_balls s else striped_balls s) \<and>
                   p1_is_striped (snd r) = Some (striped (heap t b) = (player_turn s = 1)) \<and>
                   player_turn (snd r) = player_turn s \<and>
                   is_open (snd r) = is_open s \<and>
                   lobby_table (snd r) = t) \<and>
         (is_open s \<longrightarrow>
          (case check_game_state rack s of
             Inl e \<Rightarrow> cue_ball (lobby_table s) = None
           | Inr s' \<Rightarrow>
               is_open s' =
                 (first_hit_is_eight (lobby_table s) \<or>
                  find (coloured (lobby_table s)) (pocketed (lobby_table s)) = None \<or>
                  eight_pocketed (lobby_table s))))"
proof -
  let ?t = "lobby_table s"
  let ?s1 = "snd (open_table_check s)"
  let ?s2 = "(snd (remove_pocketed_balls ?s1))\<lparr>checked := True\<rparr>"
  have check: "(let t = lobby_table s; r = open_table_check s in
          if first_hit_is_eight t then r = (False, s)
          else case find (coloured t) (pocketed t) of
                 None \<Rightarrow> r = (False, s)
               | Some b \<Rightarrow>
                   fst r \<and>
                   player_balls (snd r) = (if striped (heap t b) then striped_balls s else spotted_balls s) \<and>
                   opponent_balls (snd r) = (if striped (heap t b) then spotted_balls s else striped_balls s) \<and>
                   p1_is_striped (snd r) = Some (striped (heap t b) = (player_turn s = 1)) \<and>
                   player_turn (snd r) = player_turn s \<and>
                   is_open (snd r) = is_open s \<and>
                   lobby_table (snd r) = t)"
    using assms
    by (auto simp add: Let_def open_table_check_def open_table_loop_char close_table_def
        player_balls_def opponent_balls_def p1_balls_def p2_balls_def list_at_def
        split: option.splits)
  have evaluation: "case check_game_state rack s of
             Inl e \<Rightarrow> cue_ball ?t = None
           | Inr s' \<Rightarrow>
               is_open s' =
                 (first_hit_is_eight ?t \<or> find (coloured ?t) (pocketed ?t) = None \<or>
                  eight_pocketed ?t)"
    if "is_open s"
  proof -
    have s1: "lobby_table ?s1 = ?t" "is_break ?s1 = is_break s" "is_open ?s1"
      using that by (simp_all add: open_table_check_frame)
    have s2: "lobby_table ?s2 = ?t" "is_break ?s2 = is_break s" "is_open ?s2"
      using settled_frame [of s] that by simp_all
    have winner: "(victory_check ?s1 = None) = (\<not> eight_pocketed ?t)"
      using s1 by (simp add: victory_check_def victory_loop_char eight_pocketed_def)
    have run: "check_game_state rack s =
        apply_rules rack (fst (open_table_check s))
          (if is_break s then fst (break_check s) else fst (foul_check ?s1))
          (if is_break s then None else Some (snd (foul_check ?s1)))
          (if is_break s then snd (break_check s) else False)
          (if is_break s then None else victory_check ?s1)
          (fst (remove_pocketed_balls ?s1)) ?s2"
      using that s1 break_check_table [of ?s1 s]
      by (simp add: check_game_state_def Let_def)
    show ?thesis
    proof (cases "is_break s")
      case True
      then show ?thesis
        using run s2
        by (auto simp add: break_check_flags open_table_check_signal apply_rules_def
            finish_turn_def offer_redo_choice_def send_players_def redo_def create_game_def
            reset_state_def Let_def)
    next
      case False
      show ?thesis
      proof (cases "eight_pocketed ?t")
        case True
        then obtain v where "victory_check ?s1 = Some v"
          using winner by (cases "victory_check ?s1") simp_all
        then show ?thesis
          using True False run s2
          by (simp add: apply_rules_def end_game_def send_players_def)
      next
        case noeight: False
        then have "victory_check ?s1 = None" using winner by simp
        then show ?thesis
          using noeight False run s2
          by (auto simp add: open_table_check_signal apply_rules_def apply_foul_penalty_def
              finish_turn_def send_players_def Let_def split: option.splits)
      qed
    qed
  qed
  show ?thesis using check evaluation by blast
qed

theorem open_table_check_witness:
  "(let r = open_table_check (open_lobby (rules_table [3] [0, 8, 10, 2] [])) in
      fst r \<and> player_balls (snd r) = [9, 10, 11] \<and> opponent_balls (snd r) = [1, 2, 3] \<and>
      p1_is_striped (snd r) = Some False \<and> is_open (snd r)) \<and>
   open_table_check (open_lobby (rules_table [8, 3] [10, 2] [])) =
     (False, open_lobby (rules_table [8, 3] [10, 2] [])) \<and>
   (case check_game_state (rules_table [] [] [], [], []) (open_lobby (rules_table [3] [10, 2] [])) of
      Inl e \<Rightarrow> False | Inr s' \<Rightarrow> \<not> is_open s') \<and>
   (case check_game_state (rules_table [] [] [], [], []) (open_lobby (rules_table [8, 3] [10, 2] [])) of
      Inl e \<Rightarrow> False | Inr s' \<Rightarrow> is_open s')"
proof -
  have turn: "player_turn (open_lobby t) = 1 \<or> player_turn (open_lobby t) = 2" for t
    by (simp add: open_lobby_def)
  have a: "find (coloured (rules_table [3] [0, 8, 10, 2] [])) [0, 8, 10, 2] = Some 10"
    "find (coloured (rules_table [3] [10, 2] [])) [10, 2] = Some 10"
    by (simp_all add: coloured_def rules_table_def)
  have b: "check_game_state rack (open_lobby (rules_table h [10, 2] [])) \<noteq> Inl e" for rack h e
    by (simp add: check_game_state_def apply_rules_def apply_foul_penalty_def send_players_def
        remove_pocketed_balls_frame open_table_check_frame Let_def open_lobby_def
        rules_table_def split: option.splits)
  show ?thesis
    using open_table_check_char [OF turn, of "rules_table [3] [0, 8, 10, 2] []"]
      open_table_check_char [OF turn, of "rules_table [8, 3] [10, 2] []" "(rules_table [] [] [], [], [])"]
      open_table_check_char [OF turn, of "rules_table [3] [10, 2] []" "(rules_table [] [] [], [], [])"]
      a b [of "(rules_table [] [] [], [], [])"]
    by (simp add: Let_def open_lobby_def rules_table_def first_hit_is_eight_def rest_ball_def
        eight_pocketed_def split: sum.splits)
qed

section \<open>Pockets\<close>

lemmas pocket_eval =
  resolve_pockets_def resolve_pockets_loop.simps pocket_table_def moving_ball_def rest_ball_def
  moving_def in_some_pocket_def contains_def magnitude_squared_def vector2d_sub_def origin_def
  py_del_def Let_def

lemma py_del_in_range:
  assumes "0 \<le> k" "k < int (length xs)"
  shows "\<exists>ys. py_del k xs = Inr ys \<and> length ys + 1 = length xs"
  using assms by (auto simp add: py_del_def Let_def)

lemma resolve_pockets_loop_end:
  "\<not> index < length (balls t) \<Longrightarrow> resolve_pockets_loop index change_factor t = Inr t"
  by (subst resolve_pockets_loop.simps) simp

lemma resolve_pockets_loop_skip:
  assumes "index < length (balls t)"
    and "\<not> (moving (heap t (balls t ! index)) \<and> in_some_pocket t (heap t (balls t ! index)))"
  shows "resolve_pockets_loop index change_factor t =
         resolve_pockets_loop (index + 1) change_factor t"
  using assms by (subst resolve_pockets_loop.simps) (auto simp add: Let_def)

lemma resolve_pockets_loop_remove:
  assumes "index < length (balls t)"
    and "moving (heap t (balls t ! index)) \<and> in_some_pocket t (heap t (balls t ! index))"
    and "Some (balls t ! index) \<noteq> cue_ball t"
    and "py_del (int index - change_factor) (balls t) = Inr bs"
  shows "resolve_pockets_loop index change_factor t =
         resolve_pockets_loop (index + 1) (change_factor + 1)
           (t\<lparr>pocketed := pocketed t @ [balls t ! index], balls := bs\<rparr>)"
  using assms by (subst resolve_pockets_loop.simps) (auto simp add: Let_def)

lemma resolve_pockets_loop_cue:
  assumes "index < length (balls t)"
    and "moving (heap t (balls t ! index)) \<and> in_some_pocket t (heap t (balls t ! index))"
    and "Some (balls t ! index) = cue_ball t"
  shows "resolve_pockets_loop index change_factor t =
         resolve_pockets_loop (index + 1) change_factor
           (t\<lparr>pocketed := pocketed t @ [balls t ! index], holding := Some (balls t ! index),
              heap := (heap t)(balls t ! index :=
                         (heap t (balls t ! index))\<lparr>vel := \<lparr>xcomp = 0, ycomp = 0\<rparr>,
                                                    can_collide := False\<rparr>)\<rparr>)"
  using assms by (subst resolve_pockets_loop.simps) (auto simp add: Let_def)

lemma resolve_pockets_loop_count:
  assumes "0 \<le> change_factor" "change_factor \<le> int index"
  shows "\<exists>t'. resolve_pockets_loop index change_factor t = Inr t' \<and>
           cue_ball t' = cue_ball t \<and> in_motion t' = in_motion t \<and>
           length (balls t') + length (non_cue t (pocketed t')) =
           length (balls t) + length (non_cue t (pocketed t))"
  using assms
proof (induction index change_factor t rule: resolve_pockets_loop.induct)
  case (1 index change_factor t)
  show ?case
  proof (cases "index < length (balls t)")
    case False
    then show ?thesis by (simp add: resolve_pockets_loop_end)
  next
    case inside: True
    define b where "b = balls t ! index"
    define ball where "ball = heap t b"
    show ?thesis
    proof (cases "moving ball \<and> in_some_pocket t ball")
      case False
      then have "resolve_pockets_loop index change_factor t =
                 resolve_pockets_loop (index + 1) change_factor t"
        using inside resolve_pockets_loop_skip by (simp add: b_def ball_def)
      moreover have "\<exists>t'. resolve_pockets_loop (index + 1) change_factor t = Inr t' \<and>
           cue_ball t' = cue_ball t \<and> in_motion t' = in_motion t \<and>
           length (balls t') + length (non_cue t (pocketed t')) =
           length (balls t) + length (non_cue t (pocketed t))"
        using "1.IH"(3) [OF inside b_def ball_def False] "1.prems" by simp
      ultimately show ?thesis by simp
    next
      case pocket: True
      show ?thesis
      proof (cases "Some b \<noteq> cue_ball t")
        case True
        from "1.prems" inside obtain bs where
          del: "py_del (int index - change_factor) (balls t) = Inr bs"
          and len: "length bs + 1 = length (balls t)"
          using py_del_in_range [of "int index - change_factor" "balls t"] by auto
        let ?t = "t\<lparr>pocketed := pocketed t @ [b], balls := bs\<rparr>"
        have step: "resolve_pockets_loop index change_factor t =
                    resolve_pockets_loop (index + 1) (change_factor + 1) ?t"
          using inside pocket True del resolve_pockets_loop_remove
          by (simp add: b_def ball_def)
        have "\<exists>t'. resolve_pockets_loop (index + 1) (change_factor + 1) ?t = Inr t' \<and>
           cue_ball t' = cue_ball ?t \<and> in_motion t' = in_motion ?t \<and>
           length (balls t') + length (non_cue ?t (pocketed t')) =
           length (balls ?t) + length (non_cue ?t (pocketed ?t))"
          using "1.IH"(1) [OF inside b_def ball_def pocket True del] "1.prems" by simp
        then show ?thesis
          using step len True by (auto simp add: non_cue_def)
      next
        case False
        let ?t = "t\<lparr>pocketed := pocketed t @ [b], holding := Some b,
                     heap := (heap t)(b := ball\<lparr>vel := \<lparr>xcomp = 0, ycomp = 0\<rparr>,
                                              can_collide := False\<rparr>)\<rparr>"
        have step: "resolve_pockets_loop index change_factor t =
                    resolve_pockets_loop (index + 1) change_factor ?t"
          using inside pocket False resolve_pockets_loop_cue [of index t change_factor]
          by (simp add: b_def ball_def)
        have "\<exists>t'. resolve_pockets_loop (index + 1) change_factor ?t = Inr t' \<and>
           cue_ball t' = cue_ball ?t \<and> in_motion t' = in_motion ?t \<and>
           length (balls t') + length (non_cue ?t (pocketed t')) =
           length (balls ?t) + length (non_cue ?t (pocketed ?t))"
          using "1.IH"(2) [OF inside b_def ball_def pocket] False "1.prems" by simp
        then show ?thesis
          using step False by (auto simp add: non_cue_def)
      qed
    qed
  qed
qed

text \<open>
  C3, at an input where the code departs from it. Three balls other than the cue ball
  move and lie in a pocket in the same update. The first is pocketed and deleted; the
  deletion moves the second into the place the iterator has already passed, so the
  second is never looked at; the third is appended to the pocketed list, and the
  deletion at \<^verbatim>\<open>index - change_factor\<close> removes the second ball in its place. The live
  list ends as the third ball alone, the pocketed list as the first and the third.
\<close>

theorem resolve_pockets_three_balls:
  "map_sum id (\<lambda>t. (balls t, pocketed t)) (resolve_pockets (pocket_table [1, 2, 3])) =
     Inr ([3], [1, 3])"
  by (simp add: pocket_eval)

text \<open>
  C4, as the code has it. \<^verbatim>\<open>resolve_pockets\<close> always returns, and over a call the number
  of live balls plus the number of entries of the pocketed list that are not the cue
  ball is unchanged: each pocket event of such a ball appends one entry and removes one
  ball from the live list. The cue ball is appended and stays live, so the plain sum
  grows by the number of times the cue ball was appended. \<^verbatim>\<open>reset_counts\<close> empties the
  pocketed list and leaves the live list alone.
\<close>

theorem resolve_pockets_ball_count:
  "\<exists>t'. resolve_pockets t = Inr t' \<and>
      length (balls t') + length (non_cue t (pocketed t')) =
      length (balls t) + length (non_cue t (pocketed t)) \<and>
      length (balls t') + length (pocketed t') + cue_count t (pocketed t) =
      length (balls t) + length (pocketed t) + cue_count t (pocketed t') \<and>
      balls (reset_counts t') = balls t' \<and> pocketed (reset_counts t') = []"
proof -
  have split: "length bs = length (non_cue t bs) + cue_count t bs" for bs
    using sum_length_filter_compl [of "\<lambda>b. Some b \<noteq> cue_ball t" bs]
    by (simp add: non_cue_def cue_count_def)
  obtain t' where ret: "resolve_pockets t = Inr t'"
    and count: "length (balls t') + length (non_cue t (pocketed t')) =
                length (balls t) + length (non_cue t (pocketed t))"
    using resolve_pockets_loop_count [of 0 0 t] by (auto simp add: resolve_pockets_def)
  have "length (balls t') + length (pocketed t') + cue_count t (pocketed t) =
        length (balls t) + length (pocketed t) + cue_count t (pocketed t')"
    using count split [of "pocketed t"] split [of "pocketed t'"] by simp
  then show ?thesis
    using ret count by (simp add: reset_counts_def)
qed

theorem resolve_pockets_ball_count_witness:
  "\<exists>t'. resolve_pockets (pocket_table [1, 2, 3]) = Inr t' \<and>
      length (balls t') + length (pocketed t') = 3"
proof -
  obtain t' where ret: "resolve_pockets (pocket_table [1, 2, 3]) = Inr t'"
    and sum: "length (balls t') + length (pocketed t') + cue_count (pocket_table [1, 2, 3]) [] =
              3 + cue_count (pocket_table [1, 2, 3]) (pocketed t')"
    using resolve_pockets_ball_count [of "pocket_table [1, 2, 3]"]
    by (auto simp add: pocket_table_def)
  have "map_sum id pocketed (resolve_pockets (pocket_table [1, 2, 3])) = Inr [1, 3]"
    by (simp add: pocket_eval)
  then have "pocketed t' = [1, 3]" using ret by simp
  then show ?thesis
    using ret sum by (simp add: cue_count_def pocket_table_def)
qed

text \<open>
  The claim as worded fails when the cue ball is pocketed: it is appended to the
  pocketed list and kept in the live list as the held ball, so one live ball and no
  pocketed ball before the call become one live ball and one pocketed ball.
\<close>

theorem cue_ball_pocketed_counterexample:
  "length (balls (pocket_table [0])) + length (pocketed (pocket_table [0])) = 1 \<and>
   map_sum id (\<lambda>t. length (balls t) + length (pocketed t)) (resolve_pockets (pocket_table [0])) =
     Inr 2 \<and>
   map_sum id (\<lambda>t. (balls t, pocketed t, holding t)) (resolve_pockets (pocket_table [0])) =
     Inr ([0], [0], Some 0)"
  by (simp add: pocket_eval)

section \<open>Strikes and the motion flag\<close>

lemma for_each_invariant:
  assumes "\<And>x s s1. x \<in> set xs \<Longrightarrow> P s \<Longrightarrow> body x s = Some (Inr s1) \<Longrightarrow> P s1"
    and "P s" and "for_each body xs s = Some (Inr s')"
  shows "P s'"
  using assms
proof (induction xs arbitrary: s)
  case Nil
  then show ?case by simp
next
  case (Cons x xs)
  from Cons.prems(3) obtain s1 where
    step: "body x s = Some (Inr s1)" and rest: "for_each body xs s1 = Some (Inr s')"
    by (auto split: option.splits sum.splits)
  have inv: "P s1" using Cons.prems(1) [of x s s1] Cons.prems(2) step by simp
  have "\<And>y s s1. y \<in> set xs \<Longrightarrow> P s \<Longrightarrow> body y s = Some (Inr s1) \<Longrightarrow> P s1"
    using Cons.prems(1) by (meson list.set_intros(2))
  from Cons.IH [OF this inv rest] show ?case .
qed

lemma for_each_returns:
  assumes "\<And>x s. x \<in> set xs \<Longrightarrow> P s \<Longrightarrow> \<exists>s1. body x s = Some (Inr s1) \<and> P s1"
    and "P s"
  shows "\<exists>s'. for_each body xs s = Some (Inr s') \<and> P s'"
  using assms
proof (induction xs arbitrary: s)
  case Nil
  then show ?case by simp
next
  case (Cons x xs)
  from Cons.prems(1) [of x s] Cons.prems(2) obtain s1 where
    step: "body x s = Some (Inr s1)" and inv: "P s1"
    by auto
  have "\<And>y s. y \<in> set xs \<Longrightarrow> P s \<Longrightarrow> \<exists>s1. body y s = Some (Inr s1) \<and> P s1"
    using Cons.prems(1) by (meson list.set_intros(2))
  from Cons.IH [OF this inv] show ?case using step by simp
qed

lemma update_ball_in_motion_kept:
  "update_ball time b t = Some (Inr t1) \<Longrightarrow> in_motion t \<Longrightarrow> in_motion t1"
  by (auto simp add: update_ball_def split: if_splits sum.splits)

lemma update_ball_other:
  "update_ball time b t = Some (Inr t1) \<Longrightarrow> b0 \<noteq> b \<Longrightarrow> heap t1 b0 = heap t b0"
  by (auto simp add: update_ball_def split: if_splits sum.splits)

lemma update_ball_attempted:
  assumes "update_ball time b t = Some (Inr t1)"
    and "attempted_force_application (heap t b)"
  shows "in_motion t1"
  using assms by (auto simp add: update_ball_def split: if_splits sum.splits)

lemma first_loop_kept:
  "for_each (update_ball time) bs t = Some (Inr t') \<Longrightarrow> in_motion t \<Longrightarrow> in_motion t'"
  using for_each_invariant [of bs in_motion "update_ball time" t t']
    update_ball_in_motion_kept by blast

lemma first_loop_attempted:
  assumes "b0 \<in> set bs"
    and "in_motion t \<or> attempted_force_application (heap t b0)"
    and "for_each (update_ball time) bs t = Some (Inr t')"
  shows "in_motion t'"
  using assms
proof (induction bs arbitrary: t)
  case Nil
  then show ?case by simp
next
  case (Cons b bs)
  from Cons.prems(3) obtain t1 where
    step: "update_ball time b t = Some (Inr t1)"
    and rest: "for_each (update_ball time) bs t1 = Some (Inr t')"
    by (auto split: option.splits sum.splits)
  show ?case
  proof (cases "in_motion t1")
    case True
    then show ?thesis using rest first_loop_kept by blast
  next
    case False
    then have no: "\<not> in_motion t" and other: "b0 \<noteq> b"
      using step update_ball_in_motion_kept update_ball_attempted Cons.prems(2) by blast+
    then have "b0 \<in> set bs" and "attempted_force_application (heap t1 b0)"
      using Cons.prems(1,2) update_ball_other [OF step] by auto
    then show ?thesis using Cons.IH [of t1] rest by simp
  qed
qed

lemma resolve_collisions_ball_in_motion:
  "resolve_collisions_ball b t = Some (Inr t1) \<Longrightarrow> in_motion t1 = in_motion t"
  by (auto simp add: resolve_collisions_ball_def Let_def split: if_splits option.splits sum.splits)

lemma resolve_collisions_in_motion:
  assumes "resolve_collisions t = Some (Inr t')"
  shows "in_motion t' = in_motion t"
  using for_each_invariant [of "balls t" "\<lambda>s. in_motion s = in_motion t"
      resolve_collisions_ball t t'] assms resolve_collisions_ball_in_motion
  by (simp add: resolve_collisions_def)

text \<open>
  The rail-contact accumulator never holds a ball twice and never holds the cue ball:
  its length is the number of different numbered balls that touched a rail.
\<close>

lemma record_ball_numbered:
  assumes "distinct xs" and "cue_ball t \<notin> Some ` set xs"
  shows "distinct (record_ball t b xs) \<and> cue_ball t \<notin> Some ` set (record_ball t b xs)"
  using assms by (auto simp add: record_ball_def)

lemma resolve_collisions_ball_rail_contacts:
  assumes "resolve_collisions_ball b t = Some (Inr t1)"
    and "distinct (rail_contacts t)" and "cue_ball t \<notin> Some ` set (rail_contacts t)"
  shows "cue_ball t1 = cue_ball t \<and> distinct (rail_contacts t1) \<and>
         cue_ball t1 \<notin> Some ` set (rail_contacts t1)"
proof (cases "\<not> colliding (heap t b) \<and> can_collide (heap t b) \<and> moving (heap t b)")
  case False
  then have "t1 = t" using assms(1) by (auto simp add: resolve_collisions_ball_def)
  then show ?thesis using assms(2,3) by simp
next
  case True
  then obtain h1 collided_with where
    "get_collisions b (balls t) (rails t) (table_pos t) (upper_pos t) (heap t) =
       Some (Inr (h1, collided_with))"
    and t1: "t1 = t\<lparr>heap := h1,
        hit := (if colliding (h1 b)
                then fold (record_ball t) collided_with (record_ball t b (hit t)) else hit t),
        rail_contacts := (if hit_rail (h1 b) then record_ball t b (rail_contacts t)
                          else rail_contacts t)\<rparr>"
    using assms(1)
    by (auto simp add: resolve_collisions_ball_def Let_def split: option.splits sum.splits)
  show ?thesis
    using record_ball_numbered [OF assms(2,3), of b] assms(2,3) by (simp add: t1)
qed

lemma resolve_collisions_rail_contacts:
  assumes "resolve_collisions t = Some (Inr t')"
    and "distinct (rail_contacts t)" and "cue_ball t \<notin> Some ` set (rail_contacts t)"
  shows "distinct (rail_contacts t') \<and> cue_ball t' \<notin> Some ` set (rail_contacts t')"
proof -
  define P :: "table \<Rightarrow> bool" where
    "P = (\<lambda>s. distinct (rail_contacts s) \<and> cue_ball s \<notin> Some ` set (rail_contacts s))"
  have step: "P s1" if "P s" and "resolve_collisions_ball x s = Some (Inr s1)" for x s s1
    using resolve_collisions_ball_rail_contacts [of x s s1] that unfolding P_def by metis
  have "P t" using assms(2,3) by (simp add: P_def)
  then have "P t'"
    using for_each_invariant [of "balls t" P resolve_collisions_ball t t'] step assms(1)
    by (auto simp add: resolve_collisions_def)
  then show ?thesis by (simp add: P_def)
qed

lemma resolve_pockets_in_motion:
  "\<exists>t'. resolve_pockets t = Inr t' \<and> in_motion t' = in_motion t"
  using resolve_pockets_loop_count [of 0 0 t] by (auto simp add: resolve_pockets_def)

lemma update_in_motion:
  assumes "b \<in> set (balls t)" and "attempted_force_application (heap t b)"
    and "update time t = Some (Inr t')"
  shows "in_motion t'"
proof -
  let ?t0 = "t\<lparr>previously_in_motion := in_motion t, in_motion := False\<rparr>"
  from assms(3) obtain t1 t2 where
    first: "for_each (update_ball time) (balls t) ?t0 = Some (Inr t1)"
    and second: "resolve_collisions t1 = Some (Inr t2)"
    and third: "resolve_pockets (update_positions t2) = Inr t'"
    by (auto simp add: update_def Let_def split: option.splits sum.splits)
  have "in_motion t1"
    using first_loop_attempted [of b "balls t" ?t0 time t1] assms(1,2) first by simp
  then have "in_motion t2"
    using resolve_collisions_in_motion [OF second] by simp
  then have "in_motion (update_positions t2)"
    by (simp add: update_positions_def)
  then show ?thesis
    using resolve_pockets_in_motion [of "update_positions t2"] third by simp
qed

lemma update_ball_at_rest:
  assumes "at_rest (heap s x)" and "\<forall>y\<in>A. at_rest (heap s y)"
  shows "\<exists>s1. update_ball time x s = Some (Inr s1) \<and> (\<forall>y\<in>A. at_rest (heap s1 y))"
  using assms by (auto simp add: update_ball_def at_rest_def moving_def)

lemma resolve_collisions_ball_at_rest:
  assumes "at_rest (heap s x)"
  shows "resolve_collisions_ball x s = Some (Inr s)"
  using assms by (simp add: resolve_collisions_ball_def at_rest_def)

lemma update_returns_at_rest:
  assumes "\<forall>x\<in>set (balls t). at_rest (heap t x)"
  shows "\<exists>t'. update time t = Some (Inr t')"
proof -
  define t0 where "t0 = t\<lparr>previously_in_motion := in_motion t, in_motion := False\<rparr>"
  define P :: "table \<Rightarrow> bool" where "P = (\<lambda>s. balls s = balls t \<and> (\<forall>y\<in>set (balls t). at_rest (heap s y)))"
  have body1: "\<exists>s1. update_ball time x s = Some (Inr s1) \<and> P s1"
    if "x \<in> set (balls t)" and "P s" for x s
  proof -
    from that obtain s1 where
      s1: "update_ball time x s = Some (Inr s1)" "\<forall>y\<in>set (balls t). at_rest (heap s1 y)"
      using update_ball_at_rest [of s x "set (balls t)" time] by (auto simp add: P_def)
    moreover have "balls s1 = balls s"
      using s1(1) by (auto simp add: update_ball_def split: if_splits sum.splits)
    ultimately show ?thesis using that by (auto simp add: P_def)
  qed
  have start: "P t0" using assms by (simp add: P_def t0_def)
  have "\<exists>s'. for_each (update_ball time) (balls t) t0 = Some (Inr s') \<and> P s'"
    by (rule for_each_returns [where P = P, OF body1 start])
  then obtain t1 where first: "for_each (update_ball time) (balls t) t0 = Some (Inr t1)"
    and rest1: "P t1"
    by blast
  have body2: "\<exists>s1. resolve_collisions_ball x s = Some (Inr s1) \<and> P s1"
    if "x \<in> set (balls t)" and "P s" for x s
    using that resolve_collisions_ball_at_rest [of s x] by (auto simp add: P_def)
  have "\<exists>s'. for_each resolve_collisions_ball (balls t) t1 = Some (Inr s') \<and> P s'"
    by (rule for_each_returns [where P = P, OF body2 rest1])
  moreover have "balls t1 = balls t" using rest1 by (simp add: P_def)
  ultimately obtain t2 where second: "resolve_collisions t1 = Some (Inr t2)"
    by (auto simp add: resolve_collisions_def)
  obtain t' where "resolve_pockets (update_positions t2) = Inr t'"
    using resolve_pockets_in_motion [of "update_positions t2"] by blast
  then show ?thesis using first second by (simp add: update_def Let_def t0_def)
qed

lemma apply_force_char:
  assumes "normal_contact self = - mass self * gravity (ball_settings self)"
  shows "apply_force duration force angle self =
     (if moving self \<or>
         force > coeff_of_static_friction (ball_settings self) * mass self * gravity (ball_settings self)
      then self\<lparr>attempted_force_application := True,
                applied_force := Some (\<lparr>xcomp = cos angle * force, ycomp = sin angle * force\<rparr>, duration)\<rparr>
      else self\<lparr>attempted_force_application := True\<rparr>)"
proof -
  have still: "(magnitude_squared (vel self) = 0) = (\<not> moving self)"
    by (simp add: magnitude_squared_def moving_def sum_power2_eq_zero_iff)
  have "coeff_of_static_friction (ball_settings self) * normal_contact self * - 1 =
        coeff_of_static_friction (ball_settings self) * mass self * gravity (ball_settings self)"
    using assms by simp
  then show ?thesis
    using still by (auto simp add: apply_force_def Let_def)
qed

text \<open>
  C9. For a ball whose normal contact force is the one its constructor computes
  (minus mass times gravity): \<^verbatim>\<open>apply_force\<close> always sets the attempted flag; it records
  the impulse exactly when the ball moves or the force exceeds the coefficient of static
  friction times mass times gravity, and otherwise changes nothing but the flag. A
  \<^verbatim>\<open>Table.update\<close> that returns, on a table one of whose balls has the attempted flag set,
  reports the table as in motion; and when every ball of the table is at rest with no
  impulse pending, the update does return.
\<close>

theorem apply_force_and_update:
  assumes "normal_contact self = - mass self * gravity (ball_settings self)"
  shows "attempted_force_application (apply_force duration force angle self) \<and>
     apply_force duration force angle self =
       (if moving self \<or>
           force > coeff_of_static_friction (ball_settings self) * mass self * gravity (ball_settings self)
        then self\<lparr>attempted_force_application := True,
                  applied_force := Some (\<lparr>xcomp = cos angle * force, ycomp = sin angle * force\<rparr>, duration)\<rparr>
        else self\<lparr>attempted_force_application := True\<rparr>) \<and>
     (b \<in> set (balls t) \<and> attempted_force_application (heap t b) \<and>
        update time t = Some (Inr t') \<longrightarrow> in_motion t') \<and>
     (b \<in> set (balls t) \<and> attempted_force_application (heap t b) \<and>
        (\<forall>x\<in>set (balls t). at_rest (heap t x)) \<longrightarrow>
        (\<exists>t1. update time t = Some (Inr t1) \<and> in_motion t1))"
proof -
  have flag: "attempted_force_application (apply_force duration force angle self)"
    by (simp add: apply_force_def Let_def)
  have rest: "\<exists>t1. update time t = Some (Inr t1) \<and> in_motion t1"
    if "b \<in> set (balls t)" "attempted_force_application (heap t b)"
      "\<forall>x\<in>set (balls t). at_rest (heap t x)"
    using that update_returns_at_rest [of t time] update_in_motion [of b t time] by blast
  show ?thesis
    using flag apply_force_char [OF assms] update_in_motion [of b t time t'] rest by blast
qed

text \<open>
  A cue ball of mass 1 under gravity 10 and static friction 1 resists a force of up to
  10. Struck with 5 at rest it keeps no impulse, struck with 20 it does; the update that
  follows the weak strike, on a table at rest, still reports motion.
\<close>

theorem apply_force_and_update_witness:
  "applied_force (apply_force 1 5 0 (ball_init origin rest_settings False None)) = None \<and>
   applied_force (apply_force 1 20 0 (ball_init origin rest_settings False None)) =
     Some (\<lparr>xcomp = 20, ycomp = 0\<rparr>, 1) \<and>
   (\<exists>t1. update (1 / 60) (struck_table 5) = Some (Inr t1) \<and> in_motion t1)"
proof -
  let ?cue = "ball_init origin rest_settings False None"
  have nc: "normal_contact ?cue = - mass ?cue * gravity (ball_settings ?cue)"
    by (simp add: ball_init_def)
  have still: "\<not> moving ?cue"
    by (simp add: ball_init_def moving_def)
  have weak: "apply_force 1 5 0 ?cue = ?cue\<lparr>attempted_force_application := True\<rparr>"
    using apply_force_and_update [OF nc, of 1 5 0] still
    by (simp add: ball_init_def rest_settings_def)
  have strong: "apply_force 1 20 0 ?cue =
      ?cue\<lparr>attempted_force_application := True,
            applied_force := Some (\<lparr>xcomp = 20, ycomp = 0\<rparr>, 1)\<rparr>"
    using apply_force_and_update [OF nc, of 1 20 0] still
    by (simp add: ball_init_def rest_settings_def)
  have member: "0 \<in> set (balls (struck_table 5))"
    by (simp add: struck_table_def)
  have flag: "attempted_force_application (heap (struck_table 5) 0)"
    using weak by (simp add: struck_table_def)
  have rest: "\<forall>x\<in>set (balls (struck_table 5)). at_rest (heap (struck_table 5) x)"
    using weak
    by (simp add: struck_table_def at_rest_def moving_def ball_init_def rest_ball_def origin_def)
  have "\<exists>t1. update (1 / 60) (struck_table 5) = Some (Inr t1) \<and> in_motion t1"
    using apply_force_and_update [OF nc, of 1 5 0 0 "struck_table 5" "1 / 60"] member flag rest
    by blast
  then show ?thesis using weak strong by (simp add: ball_init_def)
qed

section \<open>A silent peer\<close>

lemma client_wait_silent:
  assumes "waiting c" and "time_elapsed + real n / 20 \<le> 3"
  shows "client_wait (replicate n False @ acks) time_elapsed times_resent prev_data c =
         client_wait acks (time_elapsed + real n / 20) times_resent prev_data c"
  using assms
proof (induction n arbitrary: time_elapsed)
  case 0
  then show ?case by simp
next
  case (Suc n)
  have nn: "0 \<le> real n" by simp
  have a: "time_elapsed + 1 / 20 + real n / 20 \<le> 3"
    using Suc.prems(2) by (simp add: field_simps)
  have b: "\<not> time_elapsed + 1 / 20 > 3"
    using a nn by linarith
  have c: "time_elapsed + 1 / 20 + real n / 20 = time_elapsed + real (Suc n) / 20"
    by (simp add: field_simps)
  show ?case
    using Suc.IH [of "time_elapsed + 1 / 20"] Suc.prems(1) a b c by simp
qed

lemma client_wait_resend:
  assumes "waiting c" and "time_elapsed + 1 / 20 > 3" and "times_resent \<noteq> 3"
  shows "client_wait (False # acks) time_elapsed times_resent (Some p) c =
         client_wait acks (time_elapsed + 1 / 20 - 5) (times_resent + 1) (Some p)
           (c\<lparr>wire := wire c @ chunks p\<rparr>)"
  using assms by simp

lemma client_wait_give_up:
  assumes "waiting c" and "time_elapsed + 1 / 20 > 3"
  shows "client_wait (False # acks) time_elapsed 3 prev_data c =
         Some (Inr (client_apply_error connection_lost c))"
  using assms by simp

lemma silence_361:
  "replicate 361 False @ acks =
   replicate 60 False @ False # replicate 99 False @ False # replicate 99 False @ False #
   replicate 99 False @ False # acks"
  by (simp add: replicate_app_Cons_same flip: replicate_Suc replicate_add)

lemma client_wait_round:
  assumes "waiting c" and "times_resent \<noteq> 3"
  shows "client_wait (replicate 99 False @ False # acks) (- 39 / 20) times_resent (Some p) c =
         client_wait acks (- 39 / 20) (times_resent + 1) (Some p) (c\<lparr>wire := wire c @ chunks p\<rparr>)"
proof -
  have "client_wait (replicate 99 False @ False # acks) (- 39 / 20) times_resent (Some p) c =
        client_wait (False # acks) (- 39 / 20 + real 99 / 20) times_resent (Some p) c"
    using client_wait_silent [of c "- 39 / 20" 99] assms(1) by simp
  also have "\<dots> = client_wait acks (- 39 / 20) (times_resent + 1) (Some p)
                     (c\<lparr>wire := wire c @ chunks p\<rparr>)"
    using client_wait_resend [of c "- 39 / 20 + real 99 / 20" times_resent acks p] assms by simp
  finally show ?thesis .
qed

lemma client_silent_breaks:
  assumes "waiting c"
  shows "client_wait (replicate 361 False @ acks) 0 0 (Some p) c =
         Some (Inr (client_apply_error connection_lost
                      (c\<lparr>wire := wire c @ chunks p @ chunks p @ chunks p\<rparr>)))"
proof -
  let ?c1 = "c\<lparr>wire := wire c @ chunks p\<rparr>"
  let ?c2 = "?c1\<lparr>wire := wire ?c1 @ chunks p\<rparr>"
  let ?c3 = "?c2\<lparr>wire := wire ?c2 @ chunks p\<rparr>"
  let ?tail = "replicate 99 False @ False # replicate 99 False @ False # replicate 99 False @ False # acks"
  have "client_wait (replicate 60 False @ False # ?tail) 0 0 (Some p) c =
        client_wait (False # ?tail) (0 + real 60 / 20) 0 (Some p) c"
    using client_wait_silent [of c 0 60] assms by simp
  also have "\<dots> = client_wait ?tail (- 39 / 20) 1 (Some p) ?c1"
    using client_wait_resend [of c "0 + real 60 / 20" 0 ?tail p] assms by simp
  also have "\<dots> = client_wait (replicate 99 False @ False # replicate 99 False @ False # acks)
                     (- 39 / 20) 2 (Some p) ?c2"
    using client_wait_round [of ?c1 1] assms by (simp add: eval_nat_numeral)
  also have "\<dots> = client_wait (replicate 99 False @ False # acks) (- 39 / 20) 3 (Some p) ?c3"
    using client_wait_round [of ?c2 2] assms by (simp add: eval_nat_numeral)
  also have "\<dots> = client_wait (False # acks) (- 39 / 20 + real 99 / 20) 3 (Some p) ?c3"
    using client_wait_silent [of ?c3 "- 39 / 20" 99] assms by simp
  also have "\<dots> = Some (Inr (client_apply_error connection_lost ?c3))"
    using client_wait_give_up [of ?c3 "- 39 / 20 + real 99 / 20"] assms by simp
  finally show ?thesis by (simp add: silence_361)
qed

lemma server_wait_silent:
  assumes "waiting c" and "time_elapsed + real n / 20 \<le> 5"
  shows "server_wait (replicate n False @ acks) time_elapsed times_resent prev_data c =
         server_wait acks (time_elapsed + real n / 20) times_resent prev_data c"
  using assms
proof (induction n arbitrary: time_elapsed)
  case 0
  then show ?case by simp
next
  case (Suc n)
  have nn: "0 \<le> real n" by simp
  have a: "time_elapsed + 1 / 20 + real n / 20 \<le> 5"
    using Suc.prems(2) by (simp add: field_simps)
  have b: "\<not> time_elapsed + 1 / 20 > 5"
    using a nn by linarith
  have c: "time_elapsed + 1 / 20 + real n / 20 = time_elapsed + real (Suc n) / 20"
    by (simp add: field_simps)
  show ?case
    using Suc.IH [of "time_elapsed + 1 / 20"] Suc.prems(1) a b c by simp
qed

lemma server_wait_resend:
  assumes "waiting c" and "time_elapsed + 1 / 20 > 5" and "times_resent \<noteq> 3"
  shows "server_wait (False # acks) time_elapsed times_resent (Some p) c =
         server_wait acks (time_elapsed + 1 / 20 - 5) (times_resent + 1) (Some p)
           (c\<lparr>wire := wire c @ chunks p\<rparr>)"
  using assms by simp

lemma server_wait_give_up:
  assumes "waiting c" and "time_elapsed + 1 / 20 > 5"
  shows "server_wait (False # acks) time_elapsed 3 prev_data c =
         Some (Inr (server_apply_error c, True))"
  using assms by simp

lemma silence_401:
  "replicate 401 False @ acks =
   replicate 100 False @ False # replicate 99 False @ False # replicate 99 False @ False #
   replicate 99 False @ False # acks"
  by (simp add: replicate_app_Cons_same flip: replicate_Suc replicate_add)

lemma server_wait_round:
  assumes "waiting c" and "times_resent \<noteq> 3"
  shows "server_wait (replicate 99 False @ False # acks) (1 / 20) times_resent (Some p) c =
         server_wait acks (1 / 20) (times_resent + 1) (Some p) (c\<lparr>wire := wire c @ chunks p\<rparr>)"
proof -
  have "server_wait (replicate 99 False @ False # acks) (1 / 20) times_resent (Some p) c =
        server_wait (False # acks) (1 / 20 + real 99 / 20) times_resent (Some p) c"
    using server_wait_silent [of c "1 / 20" 99] assms(1) by simp
  also have "\<dots> = server_wait acks (1 / 20) (times_resent + 1) (Some p)
                     (c\<lparr>wire := wire c @ chunks p\<rparr>)"
    using server_wait_resend [of c "1 / 20 + real 99 / 20" times_resent acks p] assms by simp
  finally show ?thesis .
qed

lemma server_silent_breaks:
  assumes "waiting c"
  shows "server_wait (replicate 401 False @ acks) 0 0 (Some p) c =
         Some (Inr (server_apply_error (c\<lparr>wire := wire c @ chunks p @ chunks p @ chunks p\<rparr>),
                    True))"
proof -
  let ?c1 = "c\<lparr>wire := wire c @ chunks p\<rparr>"
  let ?c2 = "?c1\<lparr>wire := wire ?c1 @ chunks p\<rparr>"
  let ?c3 = "?c2\<lparr>wire := wire ?c2 @ chunks p\<rparr>"
  let ?tail = "replicate 99 False @ False # replicate 99 False @ False # replicate 99 False @ False # acks"
  have "server_wait (replicate 100 False @ False # ?tail) 0 0 (Some p) c =
        server_wait (False # ?tail) (0 + real 100 / 20) 0 (Some p) c"
    using server_wait_silent [of c 0 100] assms by simp
  also have "\<dots> = server_wait ?tail (1 / 20) 1 (Some p) ?c1"
    using server_wait_resend [of c "0 + real 100 / 20" 0 ?tail p] assms by simp
  also have "\<dots> = server_wait (replicate 99 False @ False # replicate 99 False @ False # acks)
                     (1 / 20) 2 (Some p) ?c2"
    using server_wait_round [of ?c1 1] assms by (simp add: eval_nat_numeral)
  also have "\<dots> = server_wait (replicate 99 False @ False # acks) (1 / 20) 3 (Some p) ?c3"
    using server_wait_round [of ?c2 2] assms by (simp add: eval_nat_numeral)
  also have "\<dots> = server_wait (False # acks) (1 / 20 + real 99 / 20) 3 (Some p) ?c3"
    using server_wait_silent [of ?c3 "1 / 20" 99] assms by simp
  also have "\<dots> = Some (Inr (server_apply_error ?c3, True))"
    using server_wait_give_up [of ?c3 "1 / 20 + real 99 / 20"] assms by simp
  finally show ?thesis by (simp add: silence_401)
qed

text \<open>
  C5, as the code has it. A significant message \<open>p\<close> has been sent and its
  acknowledgment is awaited; the next message is taken from the queue and no
  acknowledgment arrives while the sender polls. The client resends \<open>p\<close> three times and
  at the next timeout (after 361 polls) declares the channel broken: \<^verbatim>\<open>in_use\<close> is false and
  both queues are empty. The server does the same after 401 polls, except that its
  \<^verbatim>\<open>__apply_error\<close> clears the send queue only: the receive queue is left as it was.
\<close>

theorem silent_peer_breaks_channel:
  assumes "waiting c" and "waiting s"
  shows "(\<exists>prev c1. client_send_one dumps (replicate 361 False @ acks) data (Some p) c =
                     Some (Inr (prev, c1)) \<and>
            \<not> in_use c1 \<and> send_queue c1 = [] \<and> receive_queue c1 = [] \<and>
            conn_error c1 = Some connection_lost \<and>
            wire c1 = wire c @ chunks p @ chunks p @ chunks p @ chunks (dumps data @ ''#'')) \<and>
         server_send_one dumps (replicate 401 False @ acks) data (Some p) s =
           Some (Inr (Some p, s\<lparr>in_use := False, waiting := False, send_queue := [],
                                wire := wire s @ chunks p @ chunks p @ chunks p,
                                can_delete := (\<not> in_lobby s)\<rparr>))"
proof -
  have client: "\<exists>prev c1. client_send_one dumps (replicate 361 False @ acks) data (Some p) c =
                     Some (Inr (prev, c1)) \<and>
            \<not> in_use c1 \<and> send_queue c1 = [] \<and> receive_queue c1 = [] \<and>
            conn_error c1 = Some connection_lost \<and>
            wire c1 = wire c @ chunks p @ chunks p @ chunks p @ chunks (dumps data @ ''#'')"
    using client_silent_breaks [OF assms(1), of acks p]
    by (simp add: client_send_one_def Let_def client_apply_error_def)
  have server: "server_send_one dumps (replicate 401 False @ acks) data (Some p) s =
           Some (Inr (Some p, s\<lparr>in_use := False, waiting := False, send_queue := [],
                                wire := wire s @ chunks p @ chunks p @ chunks p,
                                can_delete := (\<not> in_lobby s)\<rparr>))"
    using server_silent_breaks [OF assms(2), of acks p]
    by (simp add: server_send_one_def server_apply_error_def)
  show ?thesis using client server by blast
qed

text \<open>
  A server connection that waits for an acknowledgment while a request of the client is
  still in its receive queue: after 401 silent polls the connection is out of use, its
  send queue is empty, and the request is still in the receive queue.
\<close>

theorem silent_peer_breaks_channel_witness:
  "map_option (map_sum id (\<lambda>r. (in_use (snd r), send_queue (snd r), receive_queue (snd r))))
     (server_send_one (\<lambda>m. command m) (replicate 401 False) \<lparr>command = ''victory'', args = None\<rparr>
        (Some ''hit_ball#'') busy_server) =
   Some (Inr (False, [], [\<lparr>command = ''pass_turn'', args = None\<rparr>])) \<and>
   map_option (map_sum id (\<lambda>r. (in_use (snd r), send_queue (snd r), receive_queue (snd r))))
     (client_send_one (\<lambda>m. command m) (replicate 361 False) \<lparr>command = ''victory'', args = None\<rparr>
        (Some ''hit_ball#'') busy_client) =
   Some (Inr (False, [], []))"
proof -
  have "waiting busy_client" and "waiting busy_server"
    by (simp_all add: busy_client_def busy_server_def)
  from silent_peer_breaks_channel [OF this, of "\<lambda>m. command m" "[]"
      "\<lparr>command = ''victory'', args = None\<rparr>" "''hit_ball#''"]
  show ?thesis by (auto simp add: busy_server_def)
qed

section \<open>Collisions of two balls\<close>









end
